theory Spec2Isabelle
  imports Complex_Main "HOL-Library.Char_ord" "HOL-Library.List_Lexorder"
    "HOL-Library.Product_Lexorder"
begin

section \<open>Python values used by the benchmark scripts\<close>

text \<open>
  The scripts under \<^verbatim>\<open>candyshop-benchmark/scripts\<close> and
  \<^verbatim>\<open>ai-code-security-study-2026/scripts\<close> work on Python strings, lists and
  dictionaries. Strings are modelled as \<^typ>\<open>string\<close>, a character being the code point
  of the same number (U+0000 to U+00FF), and the character operations below are those of
  Python on these code points. Two of them have an upper-case form beyond U+00FF, the micro
  sign U+00B5 and the letter U+00FF; \<open>upper\<close> keeps them as they are, and
  \<open>upper_in_range\<close> says that a string has neither. Exceptions are values of
  \<open>py_error\<close>, and a function that can raise returns \<open>py_error + 'a\<close>.
\<close>

datatype py_error = AttributeError | TypeError | KeyError | ValueError | ZeroDivisionError

subsection \<open>String methods\<close>

definition whitespace :: "char list" where
  \<comment> \<open>the characters for which \<^verbatim>\<open>str.isspace\<close> holds\<close>
  "whitespace = [CHR '' '', CHR 0x09, CHR 0x0A, CHR 0x0B, CHR 0x0C, CHR 0x0D,
                 CHR 0x1C, CHR 0x1D, CHR 0x1E, CHR 0x1F, CHR 0x85, CHR 0xA0]"

definition is_space :: "char \<Rightarrow> bool" where
  "is_space c = (c \<in> set whitespace)"

definition strip :: "string \<Rightarrow> string" where
  \<comment> \<open>\<^verbatim>\<open>s.strip()\<close>\<close>
  "strip s = rev (dropWhile is_space (rev (dropWhile is_space s)))"

definition digit_chars :: "char list" where
  \<comment> \<open>the characters for which \<^verbatim>\<open>str.isdigit\<close> holds: the decimal digits and the
      superscripts two, three and one\<close>
  "digit_chars = ''0123456789'' @ [CHR 0xB2, CHR 0xB3, CHR 0xB9]"

definition is_digit_char :: "char \<Rightarrow> bool" where
  "is_digit_char c = (c \<in> set digit_chars)"

definition isdigit :: "string \<Rightarrow> bool" where
  \<comment> \<open>\<^verbatim>\<open>s.isdigit()\<close>: false on the empty string\<close>
  "isdigit s = (s \<noteq> [] \<and> list_all is_digit_char s)"

definition lowers :: string where
  \<comment> \<open>the lower-case letters with an upper-case letter below U+0100\<close>
  "lowers = ''abcdefghijklmnopqrstuvwxyz'' @
     [CHR 0xE0, CHR 0xE1, CHR 0xE2, CHR 0xE3, CHR 0xE4, CHR 0xE5, CHR 0xE6, CHR 0xE7,
      CHR 0xE8, CHR 0xE9, CHR 0xEA, CHR 0xEB, CHR 0xEC, CHR 0xED, CHR 0xEE, CHR 0xEF,
      CHR 0xF0, CHR 0xF1, CHR 0xF2, CHR 0xF3, CHR 0xF4, CHR 0xF5, CHR 0xF6, CHR 0xF8,
      CHR 0xF9, CHR 0xFA, CHR 0xFB, CHR 0xFC, CHR 0xFD, CHR 0xFE]"

definition uppers :: string where
  \<comment> \<open>their upper-case letters, in the same order\<close>
  "uppers = ''ABCDEFGHIJKLMNOPQRSTUVWXYZ'' @
     [CHR 0xC0, CHR 0xC1, CHR 0xC2, CHR 0xC3, CHR 0xC4, CHR 0xC5, CHR 0xC6, CHR 0xC7,
      CHR 0xC8, CHR 0xC9, CHR 0xCA, CHR 0xCB, CHR 0xCC, CHR 0xCD, CHR 0xCE, CHR 0xCF,
      CHR 0xD0, CHR 0xD1, CHR 0xD2, CHR 0xD3, CHR 0xD4, CHR 0xD5, CHR 0xD6, CHR 0xD8,
      CHR 0xD9, CHR 0xDA, CHR 0xDB, CHR 0xDC, CHR 0xDD, CHR 0xDE]"

definition upper_char :: "char \<Rightarrow> string" where
  \<comment> \<open>the upper-case form of one character; the sharp s U+00DF becomes \<^verbatim>\<open>SS\<close>\<close>
  "upper_char c =
     (if c = CHR 0xDF then ''SS''
      else case map_of (zip lowers uppers) c of Some u \<Rightarrow> [u] | None \<Rightarrow> [c])"

definition lower_char :: "char \<Rightarrow> char" where
  "lower_char c = (case map_of (zip uppers lowers) c of Some l \<Rightarrow> l | None \<Rightarrow> c)"

definition upper :: "string \<Rightarrow> string" where
  \<comment> \<open>\<^verbatim>\<open>s.upper()\<close>\<close>
  "upper s = concat (map upper_char s)"

definition upper_in_range :: "string \<Rightarrow> bool" where
  "upper_in_range s = (CHR 0xB5 \<notin> set s \<and> CHR 0xFF \<notin> set s)"

definition lower :: "string \<Rightarrow> string" where
  \<comment> \<open>\<^verbatim>\<open>s.lower()\<close>\<close>
  "lower s = map lower_char s"

definition startswith :: "string \<Rightarrow> string \<Rightarrow> bool" where
  \<comment> \<open>\<^verbatim>\<open>s.startswith(p)\<close>\<close>
  "startswith s p = (take (length p) s = p)"

fun split_on :: "char \<Rightarrow> string \<Rightarrow> string list" where
  \<comment> \<open>\<^verbatim>\<open>s.split(d)\<close> for a one-character separator: never the empty list\<close>
  "split_on d [] = [[]]"
| "split_on d (c # cs) =
     (if c = d then [] # split_on d cs
      else (case split_on d cs of p # ps \<Rightarrow> (c # p) # ps | [] \<Rightarrow> [[c]]))"

fun join :: "string \<Rightarrow> string list \<Rightarrow> string" where
  \<comment> \<open>\<^verbatim>\<open>sep.join(parts)\<close>\<close>
  "join sep [] = []"
| "join sep [p] = p"
| "join sep (p # q # ps) = p @ sep @ join sep (q # ps)"

definition basename :: "string \<Rightarrow> string" where
  \<comment> \<open>\<^verbatim>\<open>os.path.basename\<close> (POSIX): the text after the last slash\<close>
  "basename p = rev (takeWhile (\<lambda>c. c \<noteq> CHR ''/'') (rev p))"

subsection \<open>The path component of \<^verbatim>\<open>urllib.parse.urlparse\<close>\<close>

text \<open>
  \<^verbatim>\<open>urlparse(loc).path\<close> of the standard library, for the only arguments the scripts
  pass to it: stripped strings that start with \<^verbatim>\<open>http://\<close> or \<^verbatim>\<open>https://\<close>. The
  library removes tab, carriage return and line feed, cuts the scheme at the first colon,
  takes the authority up to the first of \<^verbatim>\<open>/ ? #\<close>, raises \<^verbatim>\<open>ValueError\<close> when the
  authority has an opening bracket without a closing one or the reverse, then cuts the
  fragment at the first \<^verbatim>\<open>#\<close>, the query at the first \<^verbatim>\<open>?\<close>, and the parameters at
  the first \<^verbatim>\<open>;\<close> of the last path segment. An authority with both brackets is accepted
  here without checking the address between them.
\<close>

definition netloc_end :: "char \<Rightarrow> bool" where
  "netloc_end c = (c \<in> set ''/?#'')"

definition splitparams :: "string \<Rightarrow> string" where
  \<comment> \<open>first component of \<^verbatim>\<open>_splitparams(url)\<close>\<close>
  "splitparams url =
     (let seg = basename url
      in take (length url - length seg) url @ takeWhile (\<lambda>c. c \<noteq> CHR '';'') seg)"

definition urlparse_path :: "string \<Rightarrow> py_error + string" where
  "urlparse_path loc =
     (let url = filter (\<lambda>c. c \<notin> set [CHR 0x09, CHR 0x0D, CHR 0x0A]) loc;
          url1 = drop 1 (dropWhile (\<lambda>c. c \<noteq> CHR '':'') url);
          netloc = (if take 2 url1 = ''//'' then takeWhile (\<lambda>c. \<not> netloc_end c) (drop 2 url1)
                    else []);
          url2 = (if take 2 url1 = ''//'' then dropWhile (\<lambda>c. \<not> netloc_end c) (drop 2 url1)
                  else url1)
      in if (CHR ''['' \<in> set netloc) \<noteq> (CHR '']'' \<in> set netloc) then Inl ValueError
         else Inr (splitparams
                (takeWhile (\<lambda>c. c \<noteq> CHR ''?'') (takeWhile (\<lambda>c. c \<noteq> CHR ''#'') url2))))"

section \<open>Consensus triage: \<^verbatim>\<open>triage-consensus.py\<close>\<close>

subsection \<open>Location matching\<close>

definition is_url :: "string \<Rightarrow> bool" where
  "is_url loc = (startswith loc ''http://'' \<or> startswith loc ''https://'')"

definition strip_line_col :: "string \<Rightarrow> string" where
  \<comment> \<open>the \<^verbatim>\<open>:line\<close> / \<^verbatim>\<open>:line:col\<close> step of \<^verbatim>\<open>extract_basename\<close>\<close>
  "strip_line_col loc =
     (let parts = split_on (CHR '':'') loc
      in if length parts > 1 \<and> isdigit (last parts)
         then (if length parts > 2 \<and> isdigit (last (butlast parts))
               then join '':'' (butlast (butlast parts))
               else hd parts)
         else loc)"

definition extract_basename :: "string \<Rightarrow> py_error + string" where
  "extract_basename location =
     (if location = [] then Inr []
      else let loc = strip location
           in case (if is_url loc then urlparse_path loc else Inr loc) of
                Inl e \<Rightarrow> Inl e
              | Inr loc1 \<Rightarrow>
                  (let loc2 = strip_line_col loc1
                   in Inr (if loc2 \<noteq> [] then basename loc2 else [])))"

definition extract_url_path :: "string \<Rightarrow> py_error + string" where
  "extract_url_path location =
     (if location = [] then Inr []
      else let loc = strip location
           in if is_url loc then urlparse_path loc else Inr [])"

definition locations_match :: "string \<Rightarrow> string \<Rightarrow> py_error + bool" where
  "locations_match loc_a loc_b =
     (if loc_a = [] \<or> loc_b = [] then Inr False
      else case extract_url_path loc_a of
        Inl e \<Rightarrow> Inl e
      | Inr url_a \<Rightarrow>
      (case extract_url_path loc_b of
        Inl e \<Rightarrow> Inl e
      | Inr url_b \<Rightarrow>
      if url_a \<noteq> [] \<and> url_b \<noteq> [] then Inr (url_a = url_b)
      else (case extract_basename loc_a of
        Inl e \<Rightarrow> Inl e
      | Inr base_a \<Rightarrow>
      (case extract_basename loc_b of
        Inl e \<Rightarrow> Inl e
      | Inr base_b \<Rightarrow>
      if base_a \<noteq> [] \<and> base_b \<noteq> [] then Inr (base_a = base_b)
      else Inr False))))"

subsection \<open>Severity and CWE helpers\<close>

definition SEVERITY_ORDER :: "(string \<times> int) list" where
  "SEVERITY_ORDER =
     [(''critical'', 4), (''high'', 3), (''medium'', 2), (''low'', 1), (''info'', 0)]"

definition severity_rank :: "string \<Rightarrow> int" where
  "severity_rank sev =
     (case map_of SEVERITY_ORDER (lower (strip sev)) of Some r \<Rightarrow> r | None \<Rightarrow> - 1)"

fun max_by_rank :: "string \<Rightarrow> string list \<Rightarrow> string" where
  \<comment> \<open>\<^verbatim>\<open>max(..., key=severity_rank)\<close>: the first element of highest rank\<close>
  "max_by_rank best [] = best"
| "max_by_rank best (s # ss) =
     max_by_rank (if severity_rank s > severity_rank best then s else best) ss"

definition highest_severity :: "string list \<Rightarrow> string" where
  "highest_severity severities =
     (let best = (case severities of [] \<Rightarrow> ''unknown'' | s # ss \<Rightarrow> max_by_rank s ss)
      in if severity_rank best \<ge> 0 then best else ''unknown'')"

definition normalize_cwe :: "string \<Rightarrow> string" where
  "normalize_cwe cwe_str =
     (if cwe_str = [] then []
      else let cwe = upper (strip cwe_str)
           in if startswith cwe ''CWE-'' then cwe
              else if isdigit cwe then ''CWE-'' @ cwe
              else cwe)"

definition is_decimal :: "string \<Rightarrow> bool" where
  \<comment> \<open>the pattern \<^verbatim>\<open>\d+\<close> against the whole string: below U+0100 the pattern
      \<^verbatim>\<open>\d\<close> matches the ten decimal digits only, not the superscripts\<close>
  "is_decimal s = (s \<noteq> [] \<and> list_all (\<lambda>c. c \<in> set ''0123456789'') s)"

definition spec_cwe_pattern :: "string \<Rightarrow> bool" where
  \<comment> \<open>the specification's pattern \<^verbatim>\<open>CWE-\d+\<close>, matched against the whole string\<close>
  "spec_cwe_pattern s = (startswith s ''CWE-'' \<and> is_decimal (drop 4 s))"

subsection \<open>Findings and ground truth as loaded from CSV\<close>

record finding =
  f_finding_id :: string
  f_tool :: string
  f_target :: string
  f_category :: string
  f_cwe :: string
  f_severity :: string
  f_location :: string
  f_description :: string
  f_raw_id :: string

record gt_entry =
  g_vuln_id :: string
  g_target :: string
  g_cwe :: string
  g_location :: string
  g_difficulty :: string
  g_source :: string

definition load_normalized_row :: "finding \<Rightarrow> finding" where
  \<comment> \<open>the per-row rewriting of \<^verbatim>\<open>load_normalized\<close>\<close>
  "load_normalized_row row =
     row\<lparr> f_cwe := normalize_cwe (f_cwe row),
          f_severity := lower (strip (if f_severity row = [] then ''unknown''
                                      else f_severity row)),
          f_target := strip (f_target row),
          f_location := strip (f_location row),
          f_tool := strip (f_tool row),
          f_description := strip (f_description row) \<rparr>"

definition load_normalized :: "finding list \<Rightarrow> finding list" where
  "load_normalized rows = map load_normalized_row rows"

subsection \<open>Grouping\<close>

fun dict_append :: "'k \<Rightarrow> 'v \<Rightarrow> ('k \<times> 'v list) list \<Rightarrow> ('k \<times> 'v list) list" where
  \<comment> \<open>\<^verbatim>\<open>d[k].append(v)\<close> on a \<^verbatim>\<open>defaultdict(list)\<close>, keys in insertion order\<close>
  "dict_append k v [] = [(k, [v])]"
| "dict_append k v ((k', vs) # rest) =
     (if k' = k then (k', vs @ [v]) # rest else (k', vs) # dict_append k v rest)"

definition bucket_findings :: "finding list \<Rightarrow> ((string \<times> string) \<times> finding list) list" where
  \<comment> \<open>first pass of \<^verbatim>\<open>group_findings\<close>\<close>
  "bucket_findings findings =
     foldl (\<lambda>buckets f. dict_append (f_target f, f_cwe f) f buckets) [] findings"

fun matches_cluster :: "finding \<Rightarrow> finding list \<Rightarrow> py_error + bool" where
  \<comment> \<open>\<^verbatim>\<open>for existing in cluster\<close>: stops at the first match\<close>
  "matches_cluster f [] = Inr False"
| "matches_cluster f (existing # rest) =
     (case locations_match (f_location f) (f_location existing) of
        Inl e \<Rightarrow> Inl e
      | Inr True \<Rightarrow> Inr True
      | Inr False \<Rightarrow> matches_cluster f rest)"

fun place_finding :: "finding \<Rightarrow> finding list list \<Rightarrow> py_error + finding list list" where
  \<comment> \<open>\<^verbatim>\<open>for cluster in clusters\<close>: joins the first cluster with a matching member,
      else opens a new cluster at the end\<close>
  "place_finding f [] = Inr [[f]]"
| "place_finding f (cluster # rest) =
     (case matches_cluster f cluster of
        Inl e \<Rightarrow> Inl e
      | Inr True \<Rightarrow> Inr ((cluster @ [f]) # rest)
      | Inr False \<Rightarrow>
          (case place_finding f rest of
             Inl e \<Rightarrow> Inl e
           | Inr rest' \<Rightarrow> Inr (cluster # rest')))"

fun cluster_bucket :: "finding list \<Rightarrow> finding list list \<Rightarrow> py_error + finding list list" where
  \<comment> \<open>\<^verbatim>\<open>for f in bucket_findings\<close>, from the clusters built so far\<close>
  "cluster_bucket [] clusters = Inr clusters"
| "cluster_bucket (f # fs) clusters =
     (case place_finding f clusters of
        Inl e \<Rightarrow> Inl e
      | Inr clusters' \<Rightarrow> cluster_bucket fs clusters')"

type_synonym group_key = "string \<times> string \<times> nat"

fun group_buckets ::
  "((string \<times> string) \<times> finding list) list \<Rightarrow> py_error + (group_key \<times> finding list) list"
where
  "group_buckets [] = Inr []"
| "group_buckets (((tgt, cw), bucket) # rest) =
     (case cluster_bucket bucket [] of
        Inl e \<Rightarrow> Inl e
      | Inr clusters \<Rightarrow>
          (case group_buckets rest of
             Inl e \<Rightarrow> Inl e
           | Inr groups \<Rightarrow>
               Inr (map (\<lambda>(idx, cluster). ((tgt, cw, idx), cluster)) (enumerate 0 clusters)
                    @ groups)))"

definition group_findings :: "finding list \<Rightarrow> py_error + (group_key \<times> finding list) list" where
  "group_findings findings = group_buckets (bucket_findings findings)"

subsection \<open>Ground-truth index and consensus rules\<close>

definition build_gt_index :: "gt_entry list \<Rightarrow> ((string \<times> string) \<times> gt_entry list) list" where
  "build_gt_index gt_entries =
     foldl (\<lambda>index entry. dict_append (g_target entry, g_cwe entry) entry index) [] gt_entries"

definition check_ground_truth ::
  "string \<Rightarrow> string \<Rightarrow> ((string \<times> string) \<times> gt_entry list) list \<Rightarrow> bool" where
  "check_ground_truth tgt cw gt_index =
     (case map_of gt_index (tgt, cw) of None \<Rightarrow> False | Some entries \<Rightarrow> length entries > 0)"

record triage_row =
  finding_group_id :: string
  tools :: string
  t_target :: string
  t_cwe :: string
  t_severity :: string
  t_location :: string
  t_description :: string
  verdict :: string
  confidence :: string
  ground_truth_match :: string
  tool_count :: string

fun decimal :: "nat \<Rightarrow> string" where
  \<comment> \<open>\<^verbatim>\<open>str(n)\<close> for a non-negative integer\<close>
  "decimal n =
     (if n < 10 then [''0123456789'' ! n]
      else decimal (n div 10) @ [''0123456789'' ! (n mod 10)])"

definition pad3 :: "nat \<Rightarrow> string" where
  \<comment> \<open>the format \<^verbatim>\<open>{seq:03d}\<close>\<close>
  "pad3 n = replicate (3 - length (decimal n)) (CHR ''0'') @ decimal n"

definition first_nonempty :: "string list \<Rightarrow> string" where
  "first_nonempty xs = (case filter (\<lambda>x. x \<noteq> []) xs of [] \<Rightarrow> [] | x # _ \<Rightarrow> x)"

definition triage_group ::
  "string \<Rightarrow> string \<Rightarrow> finding list \<Rightarrow> ((string \<times> string) \<times> gt_entry list) list \<Rightarrow> nat
   \<Rightarrow> triage_row" where
  \<comment> \<open>the body of the loop of \<^verbatim>\<open>triage_groups\<close> for one group, given its sequence number\<close>
  "triage_group tgt cw cluster gt_index seq =
     (let tool_names = sort (remdups (map f_tool cluster));
          n = length tool_names;
          sev = highest_severity (map f_severity cluster);
          loc = first_nonempty (map f_location cluster);
          descr = first_nonempty (map f_description cluster);
          gt_match = check_ground_truth tgt cw gt_index;
          vc = (if n \<ge> 2 then (''TP'', ''high'')
                else if n = 1 \<and> gt_match then (''TP'', ''medium'')
                else (''pending'', ''low''))
      in \<lparr> finding_group_id = ''GRP-'' @ tgt @ ''-'' @ cw @ ''-'' @ pad3 seq,
           tools = join ''|'' tool_names,
           t_target = tgt,
           t_cwe = cw,
           t_severity = sev,
           t_location = loc,
           t_description = descr,
           verdict = fst vc,
           confidence = snd vc,
           ground_truth_match = (if gt_match then ''yes'' else ''no''),
           tool_count = decimal n \<rparr>)"

fun triage_loop ::
  "(group_key \<times> finding list) list \<Rightarrow> ((string \<times> string) \<times> gt_entry list) list
   \<Rightarrow> (string \<Rightarrow> nat) \<Rightarrow> group_key list \<Rightarrow> py_error + triage_row list" where
  \<comment> \<open>the loop over the sorted keys; \<open>counters\<close> is \<^verbatim>\<open>target_counters\<close>\<close>
  "triage_loop groups gt_index counters [] = Inr []"
| "triage_loop groups gt_index counters ((tgt, cw, idx) # keys) =
     (case map_of groups (tgt, cw, idx) of
        None \<Rightarrow> Inl KeyError
      | Some cluster \<Rightarrow>
          (let seq = counters tgt + 1
           in case triage_loop groups gt_index (counters(tgt := seq)) keys of
                Inl e \<Rightarrow> Inl e
              | Inr rows \<Rightarrow> Inr (triage_group tgt cw cluster gt_index seq # rows)))"

definition triage_groups ::
  "(group_key \<times> finding list) list \<Rightarrow> ((string \<times> string) \<times> gt_entry list) list
   \<Rightarrow> py_error + triage_row list" where
  "triage_groups groups gt_index =
     triage_loop groups gt_index (\<lambda>_. 0) (sort (map fst groups))"

section \<open>Schema adapters: \<^verbatim>\<open>normalize-results.py\<close>\<close>

subsection \<open>Values returned by \<^verbatim>\<open>json.load\<close>\<close>

text \<open>
  A parsed document: \<open>JNull\<close> is Python's \<^verbatim>\<open>None\<close>, \<open>JObj\<close> holds the items of a
  \<^verbatim>\<open>dict\<close> (string keys, distinct, in insertion order). A float is given by its exact
  value. The text that \<^verbatim>\<open>str()\<close> gives for a value that is not a string depends on the
  formatting of floats and nested containers; it is a parameter \<open>str_of\<close> of the adapter
  model, and \<open>str_scalar\<close> is the instance used for evaluation; it is \<^verbatim>\<open>str()\<close> on
  null, booleans, integers and strings.
\<close>

datatype json =
    JNull
  | JBool bool
  | JInt int
  | JFloat rat
  | JStr string
  | JArr "json list"
  | JObj "(string \<times> json) list"

definition truthy :: "json \<Rightarrow> bool" where
  \<comment> \<open>\<^verbatim>\<open>bool(v)\<close>\<close>
  "truthy v =
     (case v of JNull \<Rightarrow> False | JBool b \<Rightarrow> b | JInt n \<Rightarrow> n \<noteq> 0 | JFloat q \<Rightarrow> q \<noteq> 0
      | JStr s \<Rightarrow> s \<noteq> [] | JArr xs \<Rightarrow> xs \<noteq> [] | JObj kvs \<Rightarrow> kvs \<noteq> [])"





definition to_str :: "(json \<Rightarrow> string) \<Rightarrow> json \<Rightarrow> string" where
  \<comment> \<open>\<^verbatim>\<open>str(v)\<close>, also the text an f-string puts for \<^verbatim>\<open>{v}\<close>\<close>
  "to_str str_of v = (case v of JStr s \<Rightarrow> s | _ \<Rightarrow> str_of v)"

definition str_scalar :: "json \<Rightarrow> string" where
  "str_scalar v =
     (case v of JNull \<Rightarrow> ''None''
      | JBool b \<Rightarrow> (if b then ''True'' else ''False'')
      | JInt n \<Rightarrow> (if n < 0 then ''-'' @ decimal (nat (- n)) else decimal (nat n))
      | JStr s \<Rightarrow> s
      | _ \<Rightarrow> [])"


subsection \<open>Severity tables and \<^verbatim>\<open>normalize_severity\<close>\<close>

definition TRIVY_SEVERITY :: "(string \<times> string) list" where
  "TRIVY_SEVERITY = [(''CRITICAL'', ''CRITICAL''), (''HIGH'', ''HIGH''), (''MEDIUM'', ''MEDIUM''),
                     (''LOW'', ''LOW''), (''UNKNOWN'', ''INFO'')]"

definition GRYPE_SEVERITY :: "(string \<times> string) list" where
  "GRYPE_SEVERITY = [(''Critical'', ''CRITICAL''), (''High'', ''HIGH''), (''Medium'', ''MEDIUM''),
                     (''Low'', ''LOW''), (''Negligible'', ''INFO'')]"

definition NODEJSSCAN_SEVERITY :: "(string \<times> string) list" where
  "NODEJSSCAN_SEVERITY = [(''ERROR'', ''HIGH''), (''WARNING'', ''MEDIUM''), (''INFO'', ''LOW'')]"

definition ZAP_RISK :: "(string \<times> string) list" where
  "ZAP_RISK = [(''3'', ''HIGH''), (''2'', ''MEDIUM''), (''1'', ''LOW''), (''0'', ''INFO'')]"

definition STANDARD_SEVERITY :: "(string \<times> string) list" where
  "STANDARD_SEVERITY = [(''critical'', ''CRITICAL''), (''high'', ''HIGH''), (''medium'', ''MEDIUM''),
                        (''low'', ''LOW''), (''info'', ''INFO''), (''warning'', ''MEDIUM''),
                        (''error'', ''HIGH'')]"

definition severity_levels :: "string list" where
  "severity_levels = [''CRITICAL'', ''HIGH'', ''MEDIUM'', ''LOW'', ''INFO'']"

definition nonempty_result :: "string option \<Rightarrow> bool" where
  \<comment> \<open>\<^verbatim>\<open>if result:\<close> for the result of \<^verbatim>\<open>dict.get\<close>\<close>
  "nonempty_result r = (case r of Some (_ # _) \<Rightarrow> True | _ \<Rightarrow> False)"

definition dict_get_json :: "(string \<times> string) list \<Rightarrow> json \<Rightarrow> py_error + string option" where
  \<comment> \<open>\<^verbatim>\<open>mapping.get(raw)\<close> on a dict with string keys: a list or a dict cannot be hashed,
      a number or a boolean equals no string key\<close>
  "dict_get_json m raw =
     (case raw of JArr _ \<Rightarrow> Inl TypeError | JObj _ \<Rightarrow> Inl TypeError
      | JStr s \<Rightarrow> Inr (map_of m s) | _ \<Rightarrow> Inr None)"

definition tool_lookup ::
  "(json \<Rightarrow> string) \<Rightarrow> json \<Rightarrow> (string \<times> string) list option \<Rightarrow> py_error + string option" where
  \<comment> \<open>\<^verbatim>\<open>mapping.get(raw) or mapping.get(str(raw))\<close> under \<^verbatim>\<open>if mapping:\<close>\<close>
  "tool_lookup str_of raw mapping =
     (case mapping of
        None \<Rightarrow> Inr None
      | Some m \<Rightarrow>
          if m = [] then Inr None
          else (case dict_get_json m raw of
                  Inl e \<Rightarrow> Inl e
                | Inr r \<Rightarrow> Inr (if nonempty_result r then r else map_of m (to_str str_of raw))))"

definition normalize_severity ::
  "(json \<Rightarrow> string) \<Rightarrow> json \<Rightarrow> (string \<times> string) list option \<Rightarrow> py_error + string" where
  "normalize_severity str_of raw mapping =
     (if \<not> truthy raw then Inr ''INFO''
      else case tool_lookup str_of raw mapping of
        Inl e \<Rightarrow> Inl e
      | Inr result \<Rightarrow>
          (case (if nonempty_result result then result else None) of
             Some r \<Rightarrow> Inr r
           | None \<Rightarrow>
               (case raw of
                  JStr s \<Rightarrow>
                    (let std = map_of STANDARD_SEVERITY (lower s)
                     in case (if nonempty_result std then std else None) of
                          Some r \<Rightarrow> Inr r
                        | None \<Rightarrow>
                            if upper s \<in> set severity_levels then Inr (upper s)
                            else Inr ''INFO'')
                | _ \<Rightarrow> Inl AttributeError)))"

definition generic_severity :: "string \<Rightarrow> string" where
  \<comment> \<open>what the fallback steps of \<^verbatim>\<open>normalize_severity\<close> return for a string\<close>
  "generic_severity s =
     (case map_of STANDARD_SEVERITY (lower s) of
        Some r \<Rightarrow> r
      | None \<Rightarrow> if upper s \<in> set severity_levels then upper s else ''INFO'')"

definition spec_normalize_severity :: "string \<Rightarrow> (string \<times> string) list \<Rightarrow> string" where
  \<comment> \<open>the specification's wording: a case-insensitive lookup in the tool table, then the
      generic case-insensitive table, then INFO\<close>
  "spec_normalize_severity raw tool_table =
     (case map_of (map (\<lambda>(k, v). (lower k, v)) tool_table) (lower raw) of
        Some v \<Rightarrow> v
      | None \<Rightarrow>
          (case map_of STANDARD_SEVERITY (lower raw) of Some v \<Rightarrow> v | None \<Rightarrow> ''INFO''))"

subsection \<open>Loading a file and the Trivy adapter\<close>










subsection \<open>The report shape the Trivy adapter reads\<close>










section \<open>Metrics: \<^verbatim>\<open>calculate-fmeasure.py\<close>\<close>

subsection \<open>Triage files written and read back\<close>

text \<open>
  \<^verbatim>\<open>write_triage_files\<close> of the triage script writes the rows of each target to
  \<^verbatim>\<open><target>-auto.csv\<close>; \<^verbatim>\<open>load_triage_files\<close> reads, for each target, the
  \<^verbatim>\<open>-final\<close> file when there is one and the \<^verbatim>\<open>-auto\<close> file otherwise, in the sorted
  order of the targets. The CSV writer and reader return every field as the string that
  was written, so a file is modelled by its target and its rows.
\<close>

definition write_triage_files :: "triage_row list \<Rightarrow> (string \<times> triage_row list) list" where
  "write_triage_files results =
     foldl (\<lambda>by_target r. dict_append (t_target r) r by_target) [] results"

definition load_triage_files ::
  "(string \<times> triage_row list) list \<Rightarrow> (string \<times> triage_row list) list
   \<Rightarrow> (string \<times> triage_row list) list" where
  "load_triage_files auto_files final_files =
     sort_key fst (final_files @ filter (\<lambda>(tgt, _). tgt \<notin> fst ` set final_files) auto_files)"

subsection \<open>Per-tool counts\<close>

record tool_stat =
  st_tp :: nat
  st_fp :: nat
  st_tp_cwes :: "string set"

fun stats_update ::
  "(tool_stat \<Rightarrow> tool_stat) \<Rightarrow> string \<times> string \<Rightarrow> ((string \<times> string) \<times> tool_stat) list
   \<Rightarrow> ((string \<times> string) \<times> tool_stat) list" where
  \<comment> \<open>an update of \<^verbatim>\<open>tool_stats[key]\<close>: the \<^verbatim>\<open>defaultdict\<close> creates a missing entry\<close>
  "stats_update g key [] = [(key, g \<lparr> st_tp = 0, st_fp = 0, st_tp_cwes = {} \<rparr>)]"
| "stats_update g key ((k, st) # rest) =
     (if k = key then (k, g st) # rest else (k, st) # stats_update g key rest)"

definition credit_tool ::
  "string \<Rightarrow> string \<Rightarrow> string \<Rightarrow> ((string \<times> string) \<times> tool_stat) list \<Rightarrow> string
   \<Rightarrow> ((string \<times> string) \<times> tool_stat) list" where
  \<comment> \<open>the body of \<^verbatim>\<open>for tool in tools\<close>\<close>
  "credit_tool vd cw tgt tool_stats tool_name =
     (if vd = ''TP''
      then stats_update
             (\<lambda>st. st\<lparr> st_tp := st_tp st + 1,
                       st_tp_cwes := (if cw \<noteq> [] then insert cw (st_tp_cwes st)
                                      else st_tp_cwes st) \<rparr>)
             (tool_name, tgt) tool_stats
      else if vd = ''FP''
      then stats_update (\<lambda>st. st\<lparr> st_fp := st_fp st + 1 \<rparr>) (tool_name, tgt) tool_stats
      else tool_stats)"

definition extract_row ::
  "string \<Rightarrow> ((string \<times> string) \<times> tool_stat) list \<Rightarrow> triage_row
   \<Rightarrow> ((string \<times> string) \<times> tool_stat) list" where
  \<comment> \<open>the body of \<^verbatim>\<open>for row in rows\<close>\<close>
  "extract_row tgt tool_stats row =
     (let tools_str = strip (tools row)
      in if tools_str = [] then tool_stats
         else let tool_names = map (\<lambda>t. lower (strip t))
                                 (filter (\<lambda>t. strip t \<noteq> []) (split_on (CHR '','') tools_str));
                  vd = upper (strip (verdict row));
                  cw = strip (t_cwe row)
              in foldl (credit_tool vd cw tgt) tool_stats tool_names)"

definition extract_tool_findings ::
  "(string \<times> triage_row list) list \<Rightarrow> ((string \<times> string) \<times> tool_stat) list" where
  "extract_tool_findings triage_data =
     foldl (\<lambda>tool_stats (tgt, rows). foldl (extract_row tgt) tool_stats rows) [] triage_data"

subsection \<open>Precision, recall and F1\<close>

text \<open>
  Python's \<^verbatim>\<open>a / b\<close> raises \<^verbatim>\<open>ZeroDivisionError\<close> on a zero divisor. The quotients are
  taken in the reals, and \<^verbatim>\<open>round(x, 3)\<close> is a parameter \<open>round3\<close> of the model;
  \<open>round3_exact\<close>, rounding the exact value to three decimals with ties to even, is the
  instance used for evaluation.
\<close>

definition true_div :: "real \<Rightarrow> real \<Rightarrow> py_error + real" where
  "true_div a b = (if b = 0 then Inl ZeroDivisionError else Inr (a / b))"

definition rounded :: "(real \<Rightarrow> real) \<Rightarrow> py_error + real \<Rightarrow> py_error + real" where
  "rounded round3 q = (case q of Inl e \<Rightarrow> Inl e | Inr x \<Rightarrow> Inr (round3 x))"

definition round3_exact :: "real \<Rightarrow> real" where
  "round3_exact x =
     (let y = x * 1000; f = \<lfloor>y\<rfloor>; d = y - of_int f
      in of_int (if d < 1 / 2 then f else if d > 1 / 2 then f + 1
                 else if even f then f else f + 1) / 1000)"

definition metrics :: "(real \<Rightarrow> real) \<Rightarrow> nat \<Rightarrow> nat \<Rightarrow> nat \<Rightarrow> py_error + real \<times> real \<times> real" where
  \<comment> \<open>the three conditional expressions of \<^verbatim>\<open>calculate_fmeasure\<close>\<close>
  "metrics round3 tp fp fn =
     (case (if tp + fp > 0 then rounded round3 (true_div (real tp) (real (tp + fp)))
            else Inr 0) of
        Inl e \<Rightarrow> Inl e
      | Inr precision \<Rightarrow>
     (case (if tp + fn > 0 then rounded round3 (true_div (real tp) (real (tp + fn)))
            else Inr 0) of
        Inl e \<Rightarrow> Inl e
      | Inr recall \<Rightarrow>
     (case (if precision + recall > 0
            then rounded round3 (true_div (2 * precision * recall) (precision + recall))
            else Inr 0) of
        Inl e \<Rightarrow> Inl e
      | Inr f1 \<Rightarrow> Inr (precision, recall, f1))))"

fun count_fn :: "string set \<Rightarrow> gt_entry list \<Rightarrow> nat \<Rightarrow> nat" where
  \<comment> \<open>\<^verbatim>\<open>for gt_row in gt_entries\<close>, from the count so far\<close>
  "count_fn tp_cwes [] fn = fn"
| "count_fn tp_cwes (gt_row # rest) fn =
     count_fn tp_cwes rest (if strip (g_cwe gt_row) \<notin> tp_cwes then fn + 1 else fn)"

record fmeasure_row =
  m_tool :: string
  m_target :: string
  m_tp :: nat
  m_fp :: nat
  m_fn :: nat
  m_total_findings :: nat
  m_precision :: real
  m_recall :: real
  m_f1 :: real
  m_scan_duration_seconds :: "real option"

definition gt_for :: "(string \<times> gt_entry list) list \<Rightarrow> string \<Rightarrow> gt_entry list" where
  \<comment> \<open>\<^verbatim>\<open>ground_truth.get(target, [])\<close>\<close>
  "gt_for ground_truth tgt = (case map_of ground_truth tgt of Some es \<Rightarrow> es | None \<Rightarrow> [])"

fun fmeasure_loop ::
  "(real \<Rightarrow> real) \<Rightarrow> ((string \<times> string) \<times> tool_stat) list \<Rightarrow> (string \<times> gt_entry list) list
   \<Rightarrow> (string \<times> string \<Rightarrow> real option) \<Rightarrow> (string \<times> string) list
   \<Rightarrow> py_error + fmeasure_row list" where
  \<comment> \<open>the two nested loops, over the (tool, target) pairs in their order\<close>
  "fmeasure_loop round3 tool_findings ground_truth speed_data [] = Inr []"
| "fmeasure_loop round3 tool_findings ground_truth speed_data ((tool_name, tgt) # pairs) =
     (case map_of tool_findings (tool_name, tgt) of
        None \<Rightarrow> fmeasure_loop round3 tool_findings ground_truth speed_data pairs
      | Some stats \<Rightarrow>
          (let tp = st_tp stats; fp = st_fp stats;
               fn = count_fn (st_tp_cwes stats) (gt_for ground_truth tgt) 0
           in case metrics round3 tp fp fn of
                Inl e \<Rightarrow> Inl e
              | Inr (precision, recall, f1) \<Rightarrow>
                  (case fmeasure_loop round3 tool_findings ground_truth speed_data pairs of
                     Inl e \<Rightarrow> Inl e
                   | Inr rows \<Rightarrow>
                       Inr (\<lparr> m_tool = tool_name, m_target = tgt, m_tp = tp, m_fp = fp,
                              m_fn = fn, m_total_findings = tp + fp,
                              m_precision = precision, m_recall = recall, m_f1 = f1,
                              m_scan_duration_seconds = speed_data (tool_name, tgt) \<rparr>
                            # rows))))"

definition calculate_fmeasure ::
  "(real \<Rightarrow> real) \<Rightarrow> ((string \<times> string) \<times> tool_stat) list \<Rightarrow> (string \<times> gt_entry list) list
   \<Rightarrow> (string \<times> string \<Rightarrow> real option) \<Rightarrow> py_error + fmeasure_row list" where
  "calculate_fmeasure round3 tool_findings ground_truth speed_data =
     (let all_tools = sort (remdups (map (\<lambda>((tool_name, _), _). tool_name) tool_findings));
          all_targets = sort (remdups (map fst ground_truth))
      in case fmeasure_loop round3 tool_findings ground_truth speed_data
                (List.product all_tools all_targets) of
           Inl e \<Rightarrow> Inl e
         | Inr rows \<Rightarrow> Inr (sort_key (\<lambda>r. (- m_f1 r, m_tool r, m_target r)) rows))"

section \<open>Deduplication for manual validation: \<^verbatim>\<open>validate.py\<close>\<close>

record scan_finding =
  s_model :: string
  s_tool :: string
  s_file :: string
  s_line :: int
  s_rule_id :: string
  s_severity :: string
  s_cwe :: string
  s_owasp :: string

definition SEVERITY_RANK :: "(string \<times> nat) list" where
  "SEVERITY_RANK = [(''CRITICAL'', 5), (''HIGH'', 4), (''MEDIUM'', 3), (''LOW'', 2), (''INFO'', 1)]"

fun highest_severity_from :: "string \<Rightarrow> nat \<Rightarrow> string list \<Rightarrow> string" where
  \<comment> \<open>the loop of \<^verbatim>\<open>highest_severity\<close> of \<^verbatim>\<open>validate.py\<close>, from \<open>best\<close> and \<open>best_rank\<close>\<close>
  "highest_severity_from best best_rank [] = best"
| "highest_severity_from best best_rank (sev # rest) =
     (let rank = (if sev \<noteq> [] then (case map_of SEVERITY_RANK (upper sev) of
                                         Some r \<Rightarrow> r | None \<Rightarrow> 0)
                  else 0)
      in if rank > best_rank then highest_severity_from (upper sev) rank rest
         else highest_severity_from best best_rank rest)"

definition highest_severity_validate :: "string list \<Rightarrow> string" where
  "highest_severity_validate severities = highest_severity_from ''LOW'' 0 severities"

definition dedup_key :: "scan_finding \<Rightarrow> string \<times> string \<times> string" where
  "dedup_key f =
     (let cw = strip (s_cwe f)
      in if cw = [] then (s_model f, s_file f, ''_nocwe_'' @ s_tool f @ ''_'' @ s_rule_id f)
         else (s_model f, s_file f, cw))"

definition dedup_groups ::
  "scan_finding list \<Rightarrow> ((string \<times> string \<times> string) \<times> scan_finding list) list" where
  "dedup_groups raw_findings =
     foldl (\<lambda>groups f. dict_append (dedup_key f) f groups) [] raw_findings"

record dedup_row =
  d_model :: string
  d_file :: string
  d_line :: int
  d_cwe :: string
  d_owasp :: string
  d_severity :: string
  d_tools :: string

definition dedup_row_of :: "string \<times> string \<times> string \<Rightarrow> scan_finding list \<Rightarrow> dedup_row" where
  \<comment> \<open>the body of \<^verbatim>\<open>for key, group in groups.items()\<close>; a group is never empty\<close>
  "dedup_row_of key grp =
     (case key of (model, file_path, key_cwe) \<Rightarrow>
        (let line_numbers = filter (\<lambda>n. n > 0) (map s_line grp)
         in \<lparr> d_model = model,
              d_file = file_path,
              d_line = (if line_numbers = [] then 0 else Min (set line_numbers)),
              d_cwe = (if \<not> startswith key_cwe ''_nocwe_'' then key_cwe
                       else (case grp of f # _ \<Rightarrow> s_cwe f | [] \<Rightarrow> [])),
              d_owasp = (case filter (\<lambda>w. w \<noteq> [] \<and> w \<noteq> ''unknown'') (map s_owasp grp) of
                           w # _ \<Rightarrow> w | [] \<Rightarrow> []),
              d_severity = highest_severity_validate (map s_severity grp),
              d_tools = join '', '' (sort (remdups (map s_tool grp))) \<rparr>))"

definition deduplicate_findings :: "scan_finding list \<Rightarrow> dedup_row list" where
  "deduplicate_findings raw_findings =
     map (\<lambda>(key, grp). dedup_row_of key grp) (dedup_groups raw_findings)"

section \<open>Sample inputs\<close>

text \<open>
  Three findings of one target and one CWE, as \<^verbatim>\<open>load_normalized\<close> returns them: a DAST
  finding on a script URL, a SAST finding on the source file of the same name, and a
  second DAST finding on another URL that ends in the same file name.
\<close>

definition ex_zap :: finding where
  "ex_zap = \<lparr> f_finding_id = ''ZAP-T-001'', f_tool = ''zap'', f_target = ''t'',
      f_category = ''dast'', f_cwe = ''CWE-79'', f_severity = ''high'',
      f_location = ''http://h/a/app.js'', f_description = ''reflected xss'',
      f_raw_id = ''40012'' \<rparr>"

definition ex_bearer :: finding where
  "ex_bearer = \<lparr> f_finding_id = ''BEARER-T-001'', f_tool = ''bearer'', f_target = ''t'',
      f_category = ''sast'', f_cwe = ''CWE-79'', f_severity = ''medium'',
      f_location = ''/src/app.js:42'', f_description = ''unsanitized output'',
      f_raw_id = ''javascript_xss'' \<rparr>"

definition ex_nuclei :: finding where
  "ex_nuclei = \<lparr> f_finding_id = ''NUCLEI-T-001'', f_tool = ''nuclei'', f_target = ''t'',
      f_category = ''dast'', f_cwe = ''CWE-79'', f_severity = ''low'',
      f_location = ''http://h/b/app.js'', f_description = ''xss probe'',
      f_raw_id = ''xss-probe'' \<rparr>"

definition ex_gt :: "gt_entry list" where
  "ex_gt = [\<lparr> g_vuln_id = ''V1'', g_target = ''t'', g_cwe = ''CWE-79'',
              g_location = ''/src/app.js'', g_difficulty = ''easy'', g_source = ''manual'' \<rparr>]"

definition fmeasure_row_ok ::
  "(real \<Rightarrow> real) \<Rightarrow> ((string \<times> string) \<times> tool_stat) list \<Rightarrow> (string \<times> gt_entry list) list
   \<Rightarrow> fmeasure_row \<Rightarrow> bool" where
  \<comment> \<open>a row of the result, as the loop of \<^verbatim>\<open>calculate_fmeasure\<close> builds it\<close>
  "fmeasure_row_ok round3 tool_findings ground_truth row =
     (\<exists>stats. map_of tool_findings (m_tool row, m_target row) = Some stats \<and>
        m_tp row = st_tp stats \<and> m_fp row = st_fp stats \<and>
        m_fn row = count_fn (st_tp_cwes stats) (gt_for ground_truth (m_target row)) 0 \<and>
        metrics round3 (m_tp row) (m_fp row) (m_fn row) =
          Inr (m_precision row, m_recall row, m_f1 row))"

definition ex_njsscan :: finding where
  "ex_njsscan = \<lparr> f_finding_id = ''NODEJSSCAN-T-001'', f_tool = ''nodejsscan'', f_target = ''t'',
      f_category = ''sast'', f_cwe = [], f_severity = ''medium'',
      f_location = ''/src/app.js:10'', f_description = ''possible xss'',
      f_raw_id = ''node_xss'' \<rparr>"

definition ex_bearer_nocwe :: finding where
  "ex_bearer_nocwe = \<lparr> f_finding_id = ''BEARER-T-002'', f_tool = ''bearer'', f_target = ''t'',
      f_category = ''sast'', f_cwe = [], f_severity = ''low'',
      f_location = ''lib/app.js:7'', f_description = ''logger leak'',
      f_raw_id = ''javascript_lang_logger'' \<rparr>"

definition ex_scan_bandit :: scan_finding where
  "ex_scan_bandit = \<lparr> s_model = ''gpt-5.2'', s_tool = ''bandit'', s_file = ''a01-py-01.py'',
      s_line = 12, s_rule_id = ''B105'', s_severity = ''LOW'', s_cwe = [], s_owasp = ''A01'' \<rparr>"

definition ex_scan_semgrep :: scan_finding where
  "ex_scan_semgrep = \<lparr> s_model = ''gpt-5.2'', s_tool = ''semgrep'', s_file = ''a01-py-01.py'',
      s_line = 12, s_rule_id = ''hardcoded-password'', s_severity = ''HIGH'', s_cwe = [],
      s_owasp = ''A01'' \<rparr>"

definition ex_ground_truth :: "(string \<times> gt_entry list) list" where
  "ex_ground_truth =
     [(''t'', [\<lparr> g_vuln_id = ''V1'', g_target = ''t'', g_cwe = ''CWE-89'',
                  g_location = ''/src/login.js'', g_difficulty = ''easy'', g_source = ''manual'' \<rparr>,
               \<lparr> g_vuln_id = ''V2'', g_target = ''t'', g_cwe = ''CWE-89'',
                  g_location = ''/src/search.js'', g_difficulty = ''hard'', g_source = ''manual'' \<rparr>])]"

definition ex_tool_findings :: "((string \<times> string) \<times> tool_stat) list" where
  "ex_tool_findings = [((''bearer'', ''t''), \<lparr> st_tp = 1, st_fp = 0, st_tp_cwes = {''CWE-79''} \<rparr>)]"

definition ex_speed_data :: "string \<times> string \<Rightarrow> real option" where
  "ex_speed_data = Map.empty"

definition ex_triage_row :: triage_row where
  "ex_triage_row = \<lparr> finding_group_id = ''GRP-t-CWE-79-001'', tools = ''bearer|zap'',
      t_target = ''t'', t_cwe = ''CWE-79'', t_severity = ''high'',
      t_location = ''http://h/a/app.js'', t_description = ''reflected xss'', verdict = ''TP'',
      confidence = ''high'', ground_truth_match = ''yes'', tool_count = ''2'' \<rparr>"

section \<open>Properties\<close>

lemma urlparse_path_error: "urlparse_path loc = Inl e \<Longrightarrow> e = ValueError"
  by (auto simp: urlparse_path_def Let_def split: if_splits)

lemma extract_url_path_error: "extract_url_path loc = Inl e \<Longrightarrow> e = ValueError"
  by (auto simp: extract_url_path_def Let_def split: if_splits dest: urlparse_path_error)

lemma extract_basename_error: "extract_basename loc = Inl e \<Longrightarrow> e = ValueError"
  by (auto simp: extract_basename_def Let_def split: if_splits sum.splits
      dest: urlparse_path_error)

text \<open>
  C10. \<^verbatim>\<open>locations_match\<close> is symmetric: for all location strings \<open>a\<close> and \<open>b\<close>,
  \<^verbatim>\<open>locations_match(a, b)\<close> and \<^verbatim>\<open>locations_match(b, a)\<close> have the same outcome: the
  same boolean, or, when \<^verbatim>\<open>urlparse\<close> rejects one of the two, the same exception. This
  covers URLs, file paths with or without \<^verbatim>\<open>:line[:col]\<close>, mixed pairs and empty
  strings.
\<close>

theorem locations_match_symmetric: "locations_match a b = locations_match b a"
proof (cases "a = [] \<or> b = []")
  case True
  then show ?thesis by (auto simp: locations_match_def)
next
  case False
  show ?thesis
  proof (cases "extract_url_path a")
    case (Inl ea)
    then have ea: "ea = ValueError" by (rule extract_url_path_error)
    show ?thesis
      using False Inl ea
      by (auto simp: locations_match_def split: sum.splits dest: extract_url_path_error)
  next
    case ua: (Inr url_a)
    show ?thesis
    proof (cases "extract_url_path b")
      case (Inl eb)
      then show ?thesis
        using False ua by (auto simp: locations_match_def split: sum.splits)
    next
      case ub: (Inr url_b)
      show ?thesis
        using False ua ub
        by (auto simp: locations_match_def split: sum.splits
            dest: extract_basename_error)
    qed
  qed
qed

theorem locations_match_symmetric_witness:
  "locations_match ''http://h/a/app.js'' ''/src/app.js:42'' = Inr True \<and>
   locations_match ''/src/app.js:42'' ''http://h/a/app.js'' = Inr True"
proof -
  have "locations_match ''http://h/a/app.js'' ''/src/app.js:42'' = Inr True"
    by code_simp
  then show ?thesis
    using locations_match_symmetric [of "''http://h/a/app.js''" "''/src/app.js:42''"]
    by simp
qed

subsection \<open>Consensus classification\<close>

lemma map_of_dict_append:
  "map_of (dict_append k v d) k' =
     (if k' = k then Some ((case map_of d k of None \<Rightarrow> [] | Some vs \<Rightarrow> vs) @ [v])
      else map_of d k')"
  by (induction k v d rule: dict_append.induct) auto

lemma map_of_foldl_dict_append:
  "map_of (foldl (\<lambda>d x. dict_append (key x) x d) d0 xs) k =
     (if map_of d0 k = None \<and> filter (\<lambda>x. key x = k) xs = [] then None
      else Some ((case map_of d0 k of None \<Rightarrow> [] | Some vs \<Rightarrow> vs) @ filter (\<lambda>x. key x = k) xs))"
proof (induction xs arbitrary: d0)
  case Nil
  then show ?case by (auto split: option.splits)
next
  case (Cons x xs)
  show ?case
    by (simp add: Cons.IH map_of_dict_append split: option.splits)
qed

lemma check_ground_truth_build:
  "check_ground_truth tgt cw (build_gt_index gt_entries) =
     (\<exists>e \<in> set gt_entries. g_target e = tgt \<and> g_cwe e = cw)"
proof -
  have "map_of (build_gt_index gt_entries) (tgt, cw) =
      (if filter (\<lambda>e. (g_target e, g_cwe e) = (tgt, cw)) gt_entries = [] then None
       else Some (filter (\<lambda>e. (g_target e, g_cwe e) = (tgt, cw)) gt_entries))"
    unfolding build_gt_index_def
    using map_of_foldl_dict_append [of "\<lambda>e. (g_target e, g_cwe e)" "[]" gt_entries "(tgt, cw)"]
    by simp
  then show ?thesis
    by (auto simp: check_ground_truth_def filter_empty_conv)
qed

lemma tool_names_count: "length (remdups (map f_tool cluster)) = card (f_tool ` set cluster)"
  by (simp add: length_remdups_card_conv)

lemma triage_group_verdict:
  "(verdict (triage_group tgt cw cluster gt_index seq),
    confidence (triage_group tgt cw cluster gt_index seq)) =
     (if card (f_tool ` set cluster) \<ge> 2 then (''TP'', ''high'')
      else if card (f_tool ` set cluster) = 1 \<and> check_ground_truth tgt cw gt_index
           then (''TP'', ''medium'')
      else (''pending'', ''low''))"
  by (simp add: triage_group_def Let_def tool_names_count)

lemma triage_group_fields:
  "t_target (triage_group tgt cw cluster gt_index seq) = tgt"
  "t_cwe (triage_group tgt cw cluster gt_index seq) = cw"
  by (simp_all add: triage_group_def Let_def)

lemma triage_loop_rows:
  "set keys \<subseteq> fst ` set groups \<Longrightarrow>
   \<exists>rows. triage_loop groups gt_index counters keys = Inr rows \<and>
     list_all2 (\<lambda>(tgt, cw, idx) r. \<exists>cluster seq. map_of groups (tgt, cw, idx) = Some cluster \<and>
        r = triage_group tgt cw cluster gt_index seq) keys rows"
proof (induction keys arbitrary: counters)
  case Nil
  then show ?case by simp
next
  case (Cons k keys)
  obtain tgt cw idx where k: "k = (tgt, cw, idx)" by (cases k) auto
  from Cons.prems have "k \<in> fst ` set groups" by simp
  then obtain cluster where c: "map_of groups (tgt, cw, idx) = Some cluster"
    unfolding k by (metis domD dom_map_of_conv_image_fst)
  from Cons.prems have "set keys \<subseteq> fst ` set groups" by simp
  from Cons.IH [OF this, of "counters(tgt := counters tgt + 1)"]
  obtain rows where r: "triage_loop groups gt_index (counters(tgt := counters tgt + 1)) keys = Inr rows"
    and l: "list_all2 (\<lambda>(tgt, cw, idx) r. \<exists>cluster seq. map_of groups (tgt, cw, idx) = Some cluster \<and>
        r = triage_group tgt cw cluster gt_index seq) keys rows" by blast
  show ?case
    unfolding k using c r l by (auto simp: Let_def)
qed

text \<open>
  C3. For every finding group, \<^verbatim>\<open>triage_groups\<close> returns one row, in the sorted order
  of the group keys, and the row's verdict and confidence are: TP and high when the group
  has at least two distinct tools; TP and medium when it has exactly one tool and some
  ground-truth entry has the group's target and CWE; pending and low otherwise. No row
  has the verdict FP.
\<close>

theorem triage_groups_consensus:
  "\<exists>rows. triage_groups groups (build_gt_index gt_entries) = Inr rows \<and>
     list_all2 (\<lambda>(tgt, cw, idx) r. \<exists>cluster. map_of groups (tgt, cw, idx) = Some cluster \<and>
        t_target r = tgt \<and> t_cwe r = cw \<and> verdict r \<noteq> ''FP'' \<and>
        (verdict r, confidence r) =
          (if card (f_tool ` set cluster) \<ge> 2 then (''TP'', ''high'')
           else if card (f_tool ` set cluster) = 1 \<and>
                   (\<exists>e \<in> set gt_entries. g_target e = tgt \<and> g_cwe e = cw)
                then (''TP'', ''medium'')
           else (''pending'', ''low'')))
       (sort (map fst groups)) rows"
proof -
  have "set (sort (map fst groups)) \<subseteq> fst ` set groups" by simp
  from triage_loop_rows [OF this, of "build_gt_index gt_entries" "\<lambda>_. 0"]
  obtain rows where r: "triage_groups groups (build_gt_index gt_entries) = Inr rows"
    and l: "list_all2 (\<lambda>(tgt, cw, idx) r. \<exists>cluster seq. map_of groups (tgt, cw, idx) = Some cluster \<and>
        r = triage_group tgt cw cluster (build_gt_index gt_entries) seq) (sort (map fst groups)) rows"
    unfolding triage_groups_def by blast
  have v: "verdict (triage_group tgt cw cluster gi seq) \<noteq> ''FP''" for tgt cw cluster gi seq
    by (simp add: triage_group_def Let_def)
  have "list_all2 (\<lambda>(tgt, cw, idx) r. \<exists>cluster. map_of groups (tgt, cw, idx) = Some cluster \<and>
        t_target r = tgt \<and> t_cwe r = cw \<and> verdict r \<noteq> ''FP'' \<and>
        (verdict r, confidence r) =
          (if card (f_tool ` set cluster) \<ge> 2 then (''TP'', ''high'')
           else if card (f_tool ` set cluster) = 1 \<and>
                   (\<exists>e \<in> set gt_entries. g_target e = tgt \<and> g_cwe e = cw)
                then (''TP'', ''medium'')
           else (''pending'', ''low'')))
       (sort (map fst groups)) rows"
    using l
    by (rule list_all2_mono)
      (auto simp only: triage_group_verdict triage_group_fields check_ground_truth_build v
        split: prod.splits)
  with r show ?thesis by blast
qed

theorem triage_groups_consensus_witness:
  "triage_groups [((''t'', ''CWE-79'', 0), [ex_zap, ex_bearer]), ((''t'', ''CWE-79'', 1), [ex_nuclei]),
                  ((''t'', ''CWE-89'', 0), [ex_bearer\<lparr>f_cwe := ''CWE-89''\<rparr>])]
     (build_gt_index ex_gt) =
   Inr [\<lparr> finding_group_id = ''GRP-t-CWE-79-001'', tools = ''bearer|zap'', t_target = ''t'',
          t_cwe = ''CWE-79'', t_severity = ''high'', t_location = ''http://h/a/app.js'',
          t_description = ''reflected xss'', verdict = ''TP'', confidence = ''high'',
          ground_truth_match = ''yes'', tool_count = ''2'' \<rparr>,
        \<lparr> finding_group_id = ''GRP-t-CWE-79-002'', tools = ''nuclei'', t_target = ''t'',
          t_cwe = ''CWE-79'', t_severity = ''low'', t_location = ''http://h/b/app.js'',
          t_description = ''xss probe'', verdict = ''TP'', confidence = ''medium'',
          ground_truth_match = ''yes'', tool_count = ''1'' \<rparr>,
        \<lparr> finding_group_id = ''GRP-t-CWE-89-003'', tools = ''bearer'', t_target = ''t'',
          t_cwe = ''CWE-89'', t_severity = ''medium'', t_location = ''/src/app.js:42'',
          t_description = ''unsanitized output'', verdict = ''pending'', confidence = ''low'',
          ground_truth_match = ''no'', tool_count = ''1'' \<rparr>]
   \<and> (\<exists>rows. triage_groups [((''t'', ''CWE-79'', 0), [ex_zap, ex_bearer]),
                  ((''t'', ''CWE-79'', 1), [ex_nuclei]),
                  ((''t'', ''CWE-89'', 0), [ex_bearer\<lparr>f_cwe := ''CWE-89''\<rparr>])]
         (build_gt_index ex_gt) = Inr rows \<and> map verdict rows = [''TP'', ''TP'', ''pending''])"
proof -
  have e: "triage_groups [((''t'', ''CWE-79'', 0), [ex_zap, ex_bearer]),
                  ((''t'', ''CWE-79'', 1), [ex_nuclei]),
                  ((''t'', ''CWE-89'', 0), [ex_bearer\<lparr>f_cwe := ''CWE-89''\<rparr>])]
     (build_gt_index ex_gt) =
   Inr [\<lparr> finding_group_id = ''GRP-t-CWE-79-001'', tools = ''bearer|zap'', t_target = ''t'',
          t_cwe = ''CWE-79'', t_severity = ''high'', t_location = ''http://h/a/app.js'',
          t_description = ''reflected xss'', verdict = ''TP'', confidence = ''high'',
          ground_truth_match = ''yes'', tool_count = ''2'' \<rparr>,
        \<lparr> finding_group_id = ''GRP-t-CWE-79-002'', tools = ''nuclei'', t_target = ''t'',
          t_cwe = ''CWE-79'', t_severity = ''low'', t_location = ''http://h/b/app.js'',
          t_description = ''xss probe'', verdict = ''TP'', confidence = ''medium'',
          ground_truth_match = ''yes'', tool_count = ''1'' \<rparr>,
        \<lparr> finding_group_id = ''GRP-t-CWE-89-003'', tools = ''bearer'', t_target = ''t'',
          t_cwe = ''CWE-89'', t_severity = ''medium'', t_location = ''/src/app.js:42'',
          t_description = ''unsanitized output'', verdict = ''pending'', confidence = ''low'',
          ground_truth_match = ''no'', tool_count = ''1'' \<rparr>]"
    by code_simp
  from triage_groups_consensus
    [of "[((''t'', ''CWE-79'', 0), [ex_zap, ex_bearer]), ((''t'', ''CWE-79'', 1), [ex_nuclei]),
          ((''t'', ''CWE-89'', 0), [ex_bearer\<lparr>f_cwe := ''CWE-89''\<rparr>])]" ex_gt]
  obtain rows where
    "triage_groups [((''t'', ''CWE-79'', 0), [ex_zap, ex_bearer]),
                  ((''t'', ''CWE-79'', 1), [ex_nuclei]),
                  ((''t'', ''CWE-89'', 0), [ex_bearer\<lparr>f_cwe := ''CWE-89''\<rparr>])]
         (build_gt_index ex_gt) = Inr rows"
    by blast
  with e show ?thesis by auto
qed

subsection \<open>Clustering\<close>

text \<open>
  C1 (evaluation). \<^verbatim>\<open>ex_zap\<close> matches \<^verbatim>\<open>ex_bearer\<close> and \<^verbatim>\<open>ex_bearer\<close> matches
  \<^verbatim>\<open>ex_nuclei\<close> (same base name), while the two URLs do not match each other (different
  paths). Processed in the order zap, nuclei, bearer the three findings of one bucket end
  in two groups; in the order zap, bearer, nuclei they end in one. So the grouping is not
  the set of connected components of \<^verbatim>\<open>locations_match\<close>, and it depends on the order.
\<close>

theorem group_findings_order_dependent:
  "locations_match (f_location ex_zap) (f_location ex_bearer) = Inr True \<and>
   locations_match (f_location ex_bearer) (f_location ex_nuclei) = Inr True \<and>
   locations_match (f_location ex_zap) (f_location ex_nuclei) = Inr False \<and>
   group_findings [ex_zap, ex_nuclei, ex_bearer] =
     Inr [((''t'', ''CWE-79'', 0), [ex_zap, ex_bearer]), ((''t'', ''CWE-79'', 1), [ex_nuclei])] \<and>
   group_findings [ex_zap, ex_bearer, ex_nuclei] =
     Inr [((''t'', ''CWE-79'', 0), [ex_zap, ex_bearer, ex_nuclei])]"
  by code_simp

subsection \<open>CWE normalization\<close>

lemma upper_char_cases:
  "upper_char c = [c] \<or> (c = CHR 0xDF \<and> upper_char c = ''SS'') \<or>
   (c \<in> set lowers \<and> (\<exists>u \<in> set uppers. upper_char c = [u]))"
proof (cases "c = CHR 0xDF")
  case True
  then show ?thesis by (simp add: upper_char_def)
next
  case False
  show ?thesis
  proof (cases "map_of (zip lowers uppers) c")
    case None
    with False show ?thesis by (simp add: upper_char_def)
  next
    case (Some u)
    then have "(c, u) \<in> set (zip lowers uppers)" by (rule map_of_SomeD)
    then have "c \<in> set lowers" "u \<in> set uppers"
      by (auto dest: set_zip_leftD set_zip_rightD)
    with Some False show ?thesis by (simp add: upper_char_def)
  qed
qed

lemma digits_not_letters:
  "set digit_chars \<inter> set lowers = {}" "set digit_chars \<inter> set uppers = {}"
  "CHR 0xDF \<notin> set digit_chars" "CHR ''S'' \<notin> set digit_chars" "CHR ''C'' \<notin> set digit_chars"
  by code_simp+

lemma upper_char_of_digit: "is_digit_char c \<Longrightarrow> upper_char c = [c]"
  using upper_char_cases [of c] digits_not_letters(1,3) unfolding is_digit_char_def by blast

lemma upper_char_digit: "list_all is_digit_char (upper_char c) = is_digit_char c"
proof (cases "is_digit_char c")
  case True
  then show ?thesis by (simp add: upper_char_of_digit)
next
  case False
  from upper_char_cases [of c] show ?thesis
  proof (elim disjE conjE bexE)
    assume "upper_char c = [c]"
    with False show ?thesis by simp
  next
    assume "upper_char c = ''SS''"
    with False digits_not_letters(4) show ?thesis by (simp add: is_digit_char_def)
  next
    fix u assume "u \<in> set uppers" "upper_char c = [u]"
    with False digits_not_letters(2) show ?thesis by (auto simp: is_digit_char_def)
  qed
qed

lemma upper_char_nonempty: "upper_char c \<noteq> []"
  using upper_char_cases [of c] by auto

lemma upper_Nil_iff: "upper s = [] \<longleftrightarrow> s = []"
  by (cases s) (simp_all add: upper_def upper_char_nonempty)

lemma isdigit_upper: "isdigit (upper s) = isdigit s"
proof -
  have "list_all is_digit_char (upper s) = list_all is_digit_char s"
    by (induction s) (simp_all add: upper_def upper_char_digit)
  then show ?thesis by (simp add: isdigit_def upper_Nil_iff)
qed

lemma upper_of_isdigit: "isdigit s \<Longrightarrow> upper s = s"
proof -
  have "list_all is_digit_char s \<Longrightarrow> upper s = s"
    by (induction s) (simp_all add: upper_def upper_char_of_digit)
  then show "isdigit s \<Longrightarrow> upper s = s" by (simp add: isdigit_def)
qed

lemma isdigit_not_cwe_prefix: "isdigit s \<Longrightarrow> \<not> startswith s ''CWE-''"
  using digits_not_letters(5)
  by (cases s) (auto simp: isdigit_def startswith_def is_digit_char_def)

lemma decimal_digit_char: "c \<in> set ''0123456789'' \<Longrightarrow> is_digit_char c"
  unfolding is_digit_char_def digit_chars_def set_append by (rule UnI1)

lemma is_decimal_isdigit: "is_decimal s \<Longrightarrow> isdigit s"
  unfolding is_decimal_def isdigit_def list_all_iff using decimal_digit_char by blast

lemma is_decimal_not_cwe_pattern: "is_decimal s \<Longrightarrow> \<not> spec_cwe_pattern s"
  using isdigit_not_cwe_prefix is_decimal_isdigit by (auto simp: spec_cwe_pattern_def)

lemma strip_Nil: "strip [] = []"
  by (simp add: strip_def)

lemma isdigit_Nil: "\<not> isdigit []"
  by (simp add: isdigit_def)

text \<open>
  C4 (as stated, refuted). \<^verbatim>\<open>normalize_cwe\<close> does not map an unparseable input to the
  empty string: \<^verbatim>\<open>"xss"\<close> comes back as \<^verbatim>\<open>"XSS"\<close>, which is neither empty nor of the form
  \<^verbatim>\<open>CWE-\d+\<close>.
\<close>

theorem normalize_cwe_unparseable_counterexample:
  "normalize_cwe ''xss'' = ''XSS'' \<and> normalize_cwe ''xss'' \<noteq> [] \<and>
   \<not> spec_cwe_pattern (normalize_cwe ''xss'')"
  by code_simp

text \<open>
  C4 (amended). For every input string of code points up to U+00FF, \<^verbatim>\<open>normalize_cwe\<close>
  strips the surrounding white space and upper-cases the value. A stripped value made of
  digit characters only (those of \<^verbatim>\<open>str.isdigit\<close>) gets the prefix: bare digits \<open>N\<close>
  become \<^verbatim>\<open>CWE-N\<close>. Every other value is returned stripped and upper-cased, which turns
  \<^verbatim>\<open>cwe-N\<close> in any letter case into \<^verbatim>\<open>CWE-N\<close> and leaves unparseable text in place
  (the value is stated for the strings without U+00B5 and U+00FF, whose upper-case forms
  lie above U+00FF). The result is empty exactly when the input is empty or white space.
  It has the form \<^verbatim>\<open>CWE-\d+\<close> exactly when the stripped input has the form \<^verbatim>\<open>\d+\<close> or,
  upper-cased, already the form \<^verbatim>\<open>CWE-\d+\<close>; a digit character that \<^verbatim>\<open>\d\<close> does not
  match, such as the superscript two, gives \<^verbatim>\<open>CWE-\<close> followed by that character.
\<close>

theorem normalize_cwe_cases:
  "(isdigit (strip s) \<longrightarrow> normalize_cwe s = ''CWE-'' @ strip s) \<and>
   (\<not> isdigit (strip s) \<and> upper_in_range s \<longrightarrow> normalize_cwe s = upper (strip s)) \<and>
   (normalize_cwe s = [] \<longleftrightarrow> strip s = []) \<and>
   (spec_cwe_pattern (normalize_cwe s) \<longleftrightarrow>
      is_decimal (strip s) \<or> spec_cwe_pattern (upper (strip s)))"
proof (cases "s = []")
  case True
  then show ?thesis
    by (simp add: normalize_cwe_def strip_Nil isdigit_Nil upper_def spec_cwe_pattern_def
        startswith_def is_decimal_def)
next
  case False
  show ?thesis
  proof (cases "isdigit (strip s)")
    case True
    then have u: "upper (strip s) = strip s" by (rule upper_of_isdigit)
    from True have n: "\<not> startswith (strip s) ''CWE-''" by (rule isdigit_not_cwe_prefix)
    from True have ne: "strip s \<noteq> []" by (auto simp: isdigit_def)
    have r: "normalize_cwe s = ''CWE-'' @ strip s"
      using False True u n by (simp add: normalize_cwe_def Let_def)
    have p: "spec_cwe_pattern (''CWE-'' @ strip s) = is_decimal (strip s)"
      by (simp add: spec_cwe_pattern_def startswith_def)
    have q: "\<not> spec_cwe_pattern (strip s)"
      using n by (simp add: spec_cwe_pattern_def)
    show ?thesis
      using True r p q u ne by simp
  next
    case nd: False
    then have "\<not> isdigit (upper (strip s))" by (simp add: isdigit_upper)
    then have r: "normalize_cwe s = upper (strip s)"
      using False by (simp add: normalize_cwe_def Let_def)
    have "\<not> is_decimal (strip s)" using nd is_decimal_isdigit by blast
    then show ?thesis using nd r by (simp add: upper_Nil_iff)
  qed
qed

theorem normalize_cwe_cases_witness:
  "isdigit (strip '' 79 '') \<and> normalize_cwe '' 79 '' = ''CWE-79'' \<and>
   \<not> isdigit (strip ''Cwe-79'') \<and> upper_in_range ''Cwe-79'' \<and>
   normalize_cwe ''Cwe-79'' = ''CWE-79'' \<and>
   spec_cwe_pattern (normalize_cwe ''Cwe-79'') \<and>
   strip ''  '' = [] \<and> normalize_cwe ''  '' = [] \<and>
   isdigit (strip [CHR 0xB2]) \<and> normalize_cwe [CHR 0xB2] = ''CWE-'' @ [CHR 0xB2] \<and>
   \<not> spec_cwe_pattern (normalize_cwe [CHR 0xB2])"
proof -
  have d: "isdigit (strip '' 79 '')" and s: "strip '' 79 '' = ''79''"
    by code_simp+
  have n: "\<not> isdigit (strip ''Cwe-79'')" and u: "upper (strip ''Cwe-79'') = ''CWE-79''"
    and p: "spec_cwe_pattern ''CWE-79''" and r: "upper_in_range ''Cwe-79''"
    by code_simp+
  have e: "strip ''  '' = []"
    by code_simp
  have x: "isdigit (strip [CHR 0xB2])" and y: "strip [CHR 0xB2] = [CHR 0xB2]"
    and z: "\<not> (is_decimal (strip [CHR 0xB2]) \<or> spec_cwe_pattern (upper (strip [CHR 0xB2])))"
    by code_simp+
  have a1: "normalize_cwe '' 79 '' = ''CWE-79''"
    using normalize_cwe_cases [of "'' 79 ''", THEN conjunct1, THEN mp, OF d] s by simp
  have a2: "normalize_cwe ''Cwe-79'' = ''CWE-79''"
    using normalize_cwe_cases [of "''Cwe-79''", THEN conjunct2, THEN conjunct1, THEN mp,
        OF conjI [OF n r]] u by simp
  have a3: "spec_cwe_pattern (normalize_cwe ''Cwe-79'')"
    using a2 p by simp
  have a4: "normalize_cwe ''  '' = []"
    using normalize_cwe_cases [of "''  ''", THEN conjunct2, THEN conjunct2, THEN conjunct1] e
    by (rule iffD2)
  have a5: "normalize_cwe [CHR 0xB2] = ''CWE-'' @ [CHR 0xB2]"
    using normalize_cwe_cases [of "[CHR 0xB2]", THEN conjunct1, THEN mp, OF x] y by simp
  have a6: "\<not> spec_cwe_pattern (normalize_cwe [CHR 0xB2])"
    using normalize_cwe_cases [of "[CHR 0xB2]", THEN conjunct2, THEN conjunct2, THEN conjunct2] z
    by blast
  from d a1 n r a2 a3 e a4 x a5 a6 show ?thesis by (intro conjI)
qed

subsection \<open>Severity normalization\<close>

lemma standard_severity_levels:
  "map_of STANDARD_SEVERITY k = Some r \<Longrightarrow> r \<in> set severity_levels"
  by (auto simp: STANDARD_SEVERITY_def severity_levels_def split: if_splits)

lemma severity_levels_nonempty: "r \<in> set severity_levels \<Longrightarrow> r \<noteq> []"
  by (auto simp: severity_levels_def)

lemma nonempty_result_Some: "nonempty_result (Some r) = (r \<noteq> [])"
  by (cases r) (simp_all add: nonempty_result_def)

lemma nonempty_result_None: "\<not> nonempty_result None"
  by (simp add: nonempty_result_def)

lemma tool_lookup_string:
  "tool_lookup str_of (JStr s) (Some m) = Inr (map_of m s)"
  by (cases m) (simp_all add: tool_lookup_def dict_get_json_def to_str_def)

lemma tool_lookup_none: "tool_lookup str_of raw None = Inr None"
  by (simp add: tool_lookup_def)

lemma generic_severity_level: "generic_severity s \<in> set severity_levels"
  by (auto simp: generic_severity_def severity_levels_def[symmetric] 
      split: option.splits dest: standard_severity_levels) (simp add: severity_levels_def)

lemma normalize_severity_fallback:
  assumes "s \<noteq> []" and "tool_lookup str_of (JStr s) mapping = Inr r" and "\<not> nonempty_result r"
  shows "normalize_severity str_of (JStr s) mapping = Inr (generic_severity s)"
proof (cases "map_of STANDARD_SEVERITY (lower s)")
  case None
  then show ?thesis
    using assms
    by (simp add: normalize_severity_def truthy_def generic_severity_def Let_def
        nonempty_result_None)
next
  case (Some x)
  then have "x \<noteq> []"
    using standard_severity_levels severity_levels_nonempty by blast
  then show ?thesis
    using assms Some
    by (simp add: normalize_severity_def truthy_def generic_severity_def Let_def
        nonempty_result_Some)
qed

lemma normalize_severity_hit:
  assumes "s \<noteq> []" and "tool_lookup str_of (JStr s) mapping = Inr (Some v)" and "v \<noteq> []"
  shows "normalize_severity str_of (JStr s) mapping = Inr v"
  using assms by (simp add: normalize_severity_def truthy_def nonempty_result_Some)

lemma normalize_severity_in_levels:
  assumes tbl: "\<forall>tbl. mapping = Some tbl \<longrightarrow> snd ` set tbl \<subseteq> set severity_levels"
  shows "\<exists>level \<in> set severity_levels. normalize_severity str_of (JStr s) mapping = Inr level"
proof (cases "s = []")
  case True
  then have "normalize_severity str_of (JStr s) mapping = Inr ''INFO''"
    by (simp add: normalize_severity_def truthy_def)
  then show ?thesis by (simp add: severity_levels_def)
next
  case False
  obtain r where r: "tool_lookup str_of (JStr s) mapping = Inr r"
    by (cases mapping) (auto simp: tool_lookup_string tool_lookup_none)
  show ?thesis
  proof (cases "nonempty_result r")
    case True
    then obtain v where v: "r = Some v" "v \<noteq> []"
      by (cases r) (auto simp: nonempty_result_None nonempty_result_Some)
    with r obtain tbl where t: "mapping = Some tbl" "map_of tbl s = Some v"
      by (cases mapping) (auto simp: tool_lookup_string tool_lookup_none)
    then have "(s, v) \<in> set tbl" by (auto dest: map_of_SomeD)
    then have "v \<in> snd ` set tbl" by force
    with tbl t have "v \<in> set severity_levels" by blast
    moreover have "normalize_severity str_of (JStr s) mapping = Inr v"
      using normalize_severity_hit False r v by simp
    ultimately show ?thesis by blast
  next
    case nr: False
    then have "normalize_severity str_of (JStr s) mapping = Inr (generic_severity s)"
      using normalize_severity_fallback False r by blast
    then show ?thesis using generic_severity_level by blast
  qed
qed

lemma script_tables_levels:
  assumes "mapping \<in> {None, Some TRIVY_SEVERITY, Some GRYPE_SEVERITY,
                      Some NODEJSSCAN_SEVERITY, Some ZAP_RISK}"
  shows "\<forall>tbl. mapping = Some tbl \<longrightarrow> snd ` set tbl \<subseteq> set severity_levels"
proof -
  have "snd ` set TRIVY_SEVERITY \<subseteq> set severity_levels"
    by (simp add: TRIVY_SEVERITY_def severity_levels_def)
  moreover have "snd ` set GRYPE_SEVERITY \<subseteq> set severity_levels"
    by (simp add: GRYPE_SEVERITY_def severity_levels_def)
  moreover have "snd ` set NODEJSSCAN_SEVERITY \<subseteq> set severity_levels"
    by (simp add: NODEJSSCAN_SEVERITY_def severity_levels_def)
  moreover have "snd ` set ZAP_RISK \<subseteq> set severity_levels"
    by (simp add: ZAP_RISK_def severity_levels_def)
  ultimately show ?thesis using assms by auto
qed
text \<open>
  C5 (as stated, refuted). The lookup in the tool table is not case-insensitive: for the
  raw value \<^verbatim>\<open>"info"\<close> and the table of nodejsscan, whose key is \<^verbatim>\<open>"INFO"\<close>, the code
  misses the tool table and answers INFO from the generic table, where a case-insensitive
  lookup in the tool table answers LOW.
\<close>

theorem normalize_severity_case_counterexample:
  "normalize_severity str_scalar (JStr ''info'') (Some NODEJSSCAN_SEVERITY) = Inr ''INFO'' \<and>
   spec_normalize_severity ''info'' NODEJSSCAN_SEVERITY = ''LOW''"
  by code_simp

text \<open>
  C5 (amended). On a string, \<^verbatim>\<open>normalize_severity\<close> answers INFO for the empty string;
  otherwise it first looks the raw value up in the tool table as it is written (exact
  case) and returns a non-empty hit; on a miss, or without a table, it looks the
  lower-cased value up in the generic table, then takes the upper-cased value if that is
  one of the five levels, then INFO. With any of the four tool tables of the script, or
  without a table, the result is one of CRITICAL, HIGH, MEDIUM, LOW, INFO, and no
  exception is raised.
\<close>

theorem normalize_severity_string:
  "(s = [] \<longrightarrow> normalize_severity str_of (JStr s) mapping = Inr ''INFO'') \<and>
   (s \<noteq> [] \<and> mapping = Some m \<and> map_of m s = Some v \<and> v \<noteq> [] \<longrightarrow>
      normalize_severity str_of (JStr s) mapping = Inr v) \<and>
   (s \<noteq> [] \<and> (mapping = None \<or> mapping = Some m \<and> map_of m s = None) \<longrightarrow>
      normalize_severity str_of (JStr s) mapping =
        Inr (case map_of STANDARD_SEVERITY (lower s) of
               Some r \<Rightarrow> r
             | None \<Rightarrow> if upper s \<in> set severity_levels then upper s else ''INFO'')) \<and>
   (mapping \<in> {None, Some TRIVY_SEVERITY, Some GRYPE_SEVERITY,
                Some NODEJSSCAN_SEVERITY, Some ZAP_RISK} \<longrightarrow>
      (\<exists>level \<in> set severity_levels. normalize_severity str_of (JStr s) mapping = Inr level))"
proof (intro conjI impI)
  assume "s = []"
  then show "normalize_severity str_of (JStr s) mapping = Inr ''INFO''"
    by (simp add: normalize_severity_def truthy_def)
next
  assume "s \<noteq> [] \<and> mapping = Some m \<and> map_of m s = Some v \<and> v \<noteq> []"
  then show "normalize_severity str_of (JStr s) mapping = Inr v"
    using normalize_severity_hit [of s str_of mapping v] by (simp add: tool_lookup_string)
next
  assume a: "s \<noteq> [] \<and> (mapping = None \<or> mapping = Some m \<and> map_of m s = None)"
  then have "tool_lookup str_of (JStr s) mapping = Inr None"
    by (auto simp: tool_lookup_string tool_lookup_none)
  with a have "normalize_severity str_of (JStr s) mapping = Inr (generic_severity s)"
    using normalize_severity_fallback nonempty_result_None by blast
  then show "normalize_severity str_of (JStr s) mapping =
        Inr (case map_of STANDARD_SEVERITY (lower s) of
               Some r \<Rightarrow> r
             | None \<Rightarrow> if upper s \<in> set severity_levels then upper s else ''INFO'')"
    by (simp add: generic_severity_def)
next
  assume "mapping \<in> {None, Some TRIVY_SEVERITY, Some GRYPE_SEVERITY,
                     Some NODEJSSCAN_SEVERITY, Some ZAP_RISK}"
  then show "\<exists>level \<in> set severity_levels. normalize_severity str_of (JStr s) mapping = Inr level"
    by (intro normalize_severity_in_levels script_tables_levels)
qed

theorem normalize_severity_string_witness:
  "map_of GRYPE_SEVERITY ''Critical'' = Some ''CRITICAL'' \<and>
   normalize_severity str_scalar (JStr ''Critical'') (Some GRYPE_SEVERITY) = Inr ''CRITICAL'' \<and>
   map_of NODEJSSCAN_SEVERITY ''wArning'' = None \<and>
   normalize_severity str_scalar (JStr ''wArning'') (Some NODEJSSCAN_SEVERITY) = Inr ''MEDIUM'' \<and>
   (\<exists>level \<in> set severity_levels.
      normalize_severity str_scalar (JStr ''wArning'') (Some NODEJSSCAN_SEVERITY) = Inr level)"
proof -
  have g: "map_of GRYPE_SEVERITY ''Critical'' = Some ''CRITICAL''"
    by code_simp
  have n: "map_of NODEJSSCAN_SEVERITY ''wArning'' = None"
    by code_simp
  have f: "(case map_of STANDARD_SEVERITY (lower ''wArning'') of
              Some r \<Rightarrow> r
            | None \<Rightarrow> if upper ''wArning'' \<in> set severity_levels then upper ''wArning''
                       else ''INFO'') = ''MEDIUM''"
    by code_simp
  show ?thesis
    using normalize_severity_string
            [of "''Critical''" str_scalar "Some GRYPE_SEVERITY" GRYPE_SEVERITY "''CRITICAL''"]
          normalize_severity_string
            [of "''wArning''" str_scalar "Some NODEJSSCAN_SEVERITY" NODEJSSCAN_SEVERITY "[]"]
          g n f
    by (auto simp: severity_levels_def)
qed

subsection \<open>The Trivy adapter\<close>










subsection \<open>Metrics\<close>

lemma metrics_total:
  "\<exists>p r f. metrics round3 tp fp fn = Inr (p, r, f) \<and>
     (tp + fp = 0 \<longrightarrow> p = 0) \<and> (tp + fn = 0 \<longrightarrow> r = 0) \<and> (p + r = 0 \<longrightarrow> f = 0)"
  by (simp add: metrics_def rounded_def true_div_def)

lemma metrics_guards:
  assumes "metrics round3 tp fp fn = Inr (p, r, f)"
  shows "tp + fp = 0 \<longrightarrow> p = 0" and "tp + fn = 0 \<longrightarrow> r = 0" and "p + r = 0 \<longrightarrow> f = 0"
proof -
  from metrics_total [of round3 tp fp fn] obtain p' r' f'
    where e: "metrics round3 tp fp fn = Inr (p', r', f')"
      and g: "tp + fp = 0 \<longrightarrow> p' = 0" "tp + fn = 0 \<longrightarrow> r' = 0" "p' + r' = 0 \<longrightarrow> f' = 0"
    by blast
  from e assms have "p' = p" "r' = r" "f' = f" by simp_all
  with g show "tp + fp = 0 \<longrightarrow> p = 0" and "tp + fn = 0 \<longrightarrow> r = 0" and "p + r = 0 \<longrightarrow> f = 0"
    by simp_all
qed



lemma fmeasure_loop_total:
  "\<exists>rows. fmeasure_loop round3 tf gt sp pairs = Inr rows \<and>
     (\<forall>row \<in> set rows. fmeasure_row_ok round3 tf gt row)"
proof (induction pairs)
  case Nil
  then show ?case by simp
next
  case (Cons pair pairs)
  obtain tool_name tgt where p: "pair = (tool_name, tgt)" by (cases pair)
  from Cons.IH obtain rows where r: "fmeasure_loop round3 tf gt sp pairs = Inr rows"
    and ok: "\<forall>row \<in> set rows. fmeasure_row_ok round3 tf gt row" by blast
  show ?case
  proof (cases "map_of tf (tool_name, tgt)")
    case None
    with p r ok show ?thesis by simp
  next
    case (Some stats)
    obtain pr rc f where m: "metrics round3 (st_tp stats) (st_fp stats)
        (count_fn (st_tp_cwes stats) (gt_for gt tgt) 0) = Inr (pr, rc, f)"
      using metrics_total by blast
    show ?thesis
      using p r ok Some m by (simp add: Let_def fmeasure_row_ok_def)
  qed
qed

lemma calculate_fmeasure_total:
  "\<exists>rows. calculate_fmeasure round3 tf gt sp = Inr rows \<and>
     (\<forall>row \<in> set rows. fmeasure_row_ok round3 tf gt row)"
proof -
  obtain rows where "fmeasure_loop round3 tf gt sp
      (List.product (sort (remdups (map (\<lambda>((tool_name, _), _). tool_name) tf)))
         (sort (remdups (map fst gt)))) = Inr rows"
    and "\<forall>row \<in> set rows. fmeasure_row_ok round3 tf gt row"
    using fmeasure_loop_total by blast
  then show ?thesis by (simp add: calculate_fmeasure_def Let_def)
qed

text \<open>
  C8. For all counts TP, FP and FN, and whatever \<^verbatim>\<open>round\<close> returns, the three metric
  expressions raise no \<^verbatim>\<open>ZeroDivisionError\<close>: precision is 0 when TP + FP = 0, recall is
  0 when TP + FN = 0, and F1 is 0 when precision + recall = 0. \<^verbatim>\<open>calculate_fmeasure\<close>
  therefore returns its rows for every input, and every row obeys the three guards.
\<close>

theorem calculate_fmeasure_no_zero_division:
  "(\<exists>p r f. metrics round3 tp fp fn = Inr (p, r, f) \<and>
      (tp + fp = 0 \<longrightarrow> p = 0) \<and> (tp + fn = 0 \<longrightarrow> r = 0) \<and> (p + r = 0 \<longrightarrow> f = 0)) \<and>
   (\<exists>rows. calculate_fmeasure round3 tool_findings ground_truth speed_data = Inr rows \<and>
     (\<forall>row \<in> set rows.
        (m_tp row + m_fp row = 0 \<longrightarrow> m_precision row = 0) \<and>
        (m_tp row + m_fn row = 0 \<longrightarrow> m_recall row = 0) \<and>
        (m_precision row + m_recall row = 0 \<longrightarrow> m_f1 row = 0)))"
proof -
  obtain rows where r: "calculate_fmeasure round3 tool_findings ground_truth speed_data = Inr rows"
    and ok: "\<forall>row \<in> set rows. fmeasure_row_ok round3 tool_findings ground_truth row"
    using calculate_fmeasure_total by blast
  have "\<forall>row \<in> set rows.
        (m_tp row + m_fp row = 0 \<longrightarrow> m_precision row = 0) \<and>
        (m_tp row + m_fn row = 0 \<longrightarrow> m_recall row = 0) \<and>
        (m_precision row + m_recall row = 0 \<longrightarrow> m_f1 row = 0)"
  proof
    fix row
    assume "row \<in> set rows"
    with ok have "fmeasure_row_ok round3 tool_findings ground_truth row" ..
    then have m: "metrics round3 (m_tp row) (m_fp row) (m_fn row) =
          Inr (m_precision row, m_recall row, m_f1 row)"
      unfolding fmeasure_row_ok_def by (elim exE conjE)
    from metrics_guards [OF m]
    show "(m_tp row + m_fp row = 0 \<longrightarrow> m_precision row = 0) \<and>
        (m_tp row + m_fn row = 0 \<longrightarrow> m_recall row = 0) \<and>
        (m_precision row + m_recall row = 0 \<longrightarrow> m_f1 row = 0)"
      by (intro conjI)
  qed
  with r have "\<exists>rows. calculate_fmeasure round3 tool_findings ground_truth speed_data = Inr rows \<and>
     (\<forall>row \<in> set rows.
        (m_tp row + m_fp row = 0 \<longrightarrow> m_precision row = 0) \<and>
        (m_tp row + m_fn row = 0 \<longrightarrow> m_recall row = 0) \<and>
        (m_precision row + m_recall row = 0 \<longrightarrow> m_f1 row = 0))"
    by (intro exI conjI)
  with metrics_total [of round3 tp fp fn] show ?thesis by (intro conjI)
qed

theorem calculate_fmeasure_no_zero_division_witness:
  "(0::nat) + 0 = 0 \<and> metrics round3_exact 0 0 0 = Inr (0, 0, 0) \<and>
   metrics round3_exact 8 2 2 = Inr (4 / 5, 4 / 5, 4 / 5) \<and>
   (\<exists>rows. calculate_fmeasure round3_exact ex_tool_findings ex_ground_truth ex_speed_data =
        Inr rows \<and> map m_precision rows = [1] \<and> map m_fn rows = [2])"
proof -
  have z: "metrics round3_exact 0 0 0 = Inr (0, 0, 0)"
    by (simp add: metrics_def)
  have m: "metrics round3_exact 8 2 2 = Inr (4 / 5, 4 / 5, 4 / 5)"
    by (simp add: metrics_def rounded_def true_div_def round3_exact_def Let_def)
  have e: "calculate_fmeasure round3_exact ex_tool_findings ex_ground_truth ex_speed_data =
      Inr [\<lparr> m_tool = ''bearer'', m_target = ''t'', m_tp = 1, m_fp = 0, m_fn = 2,
              m_total_findings = 1, m_precision = 1, m_recall = 333 / 1000, m_f1 = 1 / 2,
              m_scan_duration_seconds = None \<rparr>]"
    by code_simp
  from calculate_fmeasure_no_zero_division
    [of round3_exact 0 0 0 ex_tool_findings ex_ground_truth ex_speed_data]
  obtain rows where
    "calculate_fmeasure round3_exact ex_tool_findings ex_ground_truth ex_speed_data = Inr rows"
    by blast
  with e have "rows =
      [\<lparr> m_tool = ''bearer'', m_target = ''t'', m_tp = 1, m_fp = 0, m_fn = 2,
          m_total_findings = 1, m_precision = 1, m_recall = 333 / 1000, m_f1 = 1 / 2,
          m_scan_duration_seconds = None \<rparr>]"
    by simp
  then have "map m_precision rows = [1]" and "map m_fn rows = [2]"
    by simp_all
  with e z m show ?thesis by simp
qed




subsection \<open>Crediting tools from the triage files\<close>

text \<open>
  C7 (evaluation). The group of \<^verbatim>\<open>ex_zap\<close> and \<^verbatim>\<open>ex_bearer\<close> gets the verdict TP and
  the triage script writes its tools as \<^verbatim>\<open>bearer|zap\<close>. \<^verbatim>\<open>extract_tool_findings\<close>
  splits that field at commas, so the TP is counted once for a tool named
  \<^verbatim>\<open>bearer|zap\<close>, and neither \<^verbatim>\<open>bearer\<close> nor \<^verbatim>\<open>zap\<close> receives a count.
\<close>

theorem extract_tool_findings_pipe_joined:
  "group_findings [ex_zap, ex_bearer] = Inr [((''t'', ''CWE-79'', 0), [ex_zap, ex_bearer])] \<and>
   triage_groups [((''t'', ''CWE-79'', 0), [ex_zap, ex_bearer])] (build_gt_index ex_gt) =
     Inr [ex_triage_row] \<and>
   extract_tool_findings (load_triage_files (write_triage_files [ex_triage_row]) []) =
     [((''bearer|zap'', ''t''), \<lparr> st_tp = 1, st_fp = 0, st_tp_cwes = {''CWE-79''} \<rparr>)] \<and>
   map_of (extract_tool_findings (load_triage_files (write_triage_files [ex_triage_row]) []))
     (''bearer'', ''t'') = None \<and>
   map_of (extract_tool_findings (load_triage_files (write_triage_files [ex_triage_row]) []))
     (''zap'', ''t'') = None"
  by code_simp

subsection \<open>Findings without a CWE\<close>

lemma dict_append_keys:
  "map fst (dict_append k v d) = (if k \<in> fst ` set d then map fst d else map fst d @ [k])"
  by (induction k v d rule: dict_append.induct) auto

lemma distinct_dict_append:
  "distinct (map fst d) \<Longrightarrow> distinct (map fst (dict_append k v d))"
  by (simp add: dict_append_keys)

lemma distinct_foldl_dict_append:
  "distinct (map fst d0) \<Longrightarrow>
   distinct (map fst (foldl (\<lambda>d x. dict_append (key x) x d) d0 xs))"
  by (induction xs arbitrary: d0) (simp_all add: distinct_dict_append)

lemma grouped_by_key:
  "(k, grp) \<in> set (foldl (\<lambda>d x. dict_append (key x) x d) [] xs) \<longleftrightarrow>
     grp = filter (\<lambda>x. key x = k) xs \<and> grp \<noteq> []"
proof -
  let ?d = "foldl (\<lambda>d x. dict_append (key x) x d) [] xs"
  have "distinct (map fst ?d)" by (rule distinct_foldl_dict_append) simp
  then have "(k, grp) \<in> set ?d \<longleftrightarrow> map_of ?d k = Some grp" by simp
  also have "\<dots> \<longleftrightarrow> grp = filter (\<lambda>x. key x = k) xs \<and> grp \<noteq> []"
    using map_of_foldl_dict_append [of key "[]" xs k] by auto
  finally show ?thesis .
qed

lemma dedup_key_nocwe:
  assumes "strip (s_cwe f) = []" and "strip (s_cwe g) = []"
  shows "dedup_key f = dedup_key g \<longleftrightarrow>
     s_model f = s_model g \<and> s_file f = s_file g \<and>
     s_tool f @ ''_'' @ s_rule_id f = s_tool g @ ''_'' @ s_rule_id g"
  using assms by (simp add: dedup_key_def)

lemma same_group_iff:
  assumes "f \<in> set raw" and "g \<in> set raw"
  shows "(\<exists>key grp. (key, grp) \<in> set (dedup_groups raw) \<and> f \<in> set grp \<and> g \<in> set grp) \<longleftrightarrow>
         dedup_key f = dedup_key g"
proof
  assume "\<exists>key grp. (key, grp) \<in> set (dedup_groups raw) \<and> f \<in> set grp \<and> g \<in> set grp"
  then obtain key grp where "(key, grp) \<in> set (dedup_groups raw)" "f \<in> set grp" "g \<in> set grp"
    by blast
  then show "dedup_key f = dedup_key g"
    unfolding dedup_groups_def by (simp add: grouped_by_key)
next
  assume e: "dedup_key f = dedup_key g"
  let ?grp = "filter (\<lambda>x. dedup_key x = dedup_key f) raw"
  from assms e have m: "f \<in> set ?grp" "g \<in> set ?grp" by simp_all
  then have "?grp \<noteq> []" by (metis empty_iff empty_set)
  then have "(dedup_key f, ?grp) \<in> set (dedup_groups raw)"
    unfolding dedup_groups_def by (simp add: grouped_by_key)
  with m show "\<exists>key grp. (key, grp) \<in> set (dedup_groups raw) \<and> f \<in> set grp \<and> g \<in> set grp"
    by blast
qed

lemma group_findings_pair:
  assumes "f_target a = f_target b" and "f_cwe a = f_cwe b"
    and "locations_match (f_location b) (f_location a) = Inr True"
  shows "group_findings [a, b] = Inr [((f_target a, f_cwe a, 0), [a, b])]"
  using assms by (simp add: group_findings_def bucket_findings_def)

lemma matches_cluster_True:
  "matches_cluster f c = Inr True \<Longrightarrow>
   \<exists>e \<in> set c. locations_match (f_location f) (f_location e) = Inr True"
  by (induction c) (auto split: sum.splits bool.splits)

lemma matches_cluster_False:
  "matches_cluster f c = Inr False \<Longrightarrow>
   \<forall>e \<in> set c. locations_match (f_location f) (f_location e) = Inr False"
  by (induction c) (auto split: sum.splits bool.splits)

lemma place_finding_result:
  "place_finding f cs = Inr cs' \<Longrightarrow>
   (\<exists>pre c post. cs = pre @ c # post \<and> cs' = pre @ (c @ [f]) # post \<and>
        matches_cluster f c = Inr True) \<or>
   (cs' = cs @ [[f]] \<and> (\<forall>c \<in> set cs. matches_cluster f c = Inr False))"
proof (induction cs arbitrary: cs')
  case Nil
  then show ?case by simp
next
  case (Cons c cs)
  show ?case
  proof (cases "matches_cluster f c")
    case (Inl e)
    with Cons.prems show ?thesis by simp
  next
    case (Inr m)
    show ?thesis
    proof (cases m)
      case True
      with Inr Cons.prems have "cs' = (c @ [f]) # cs" by simp
      with Inr True have "c # cs = [] @ c # cs \<and> cs' = [] @ (c @ [f]) # cs \<and>
          matches_cluster f c = Inr True" by simp
      then show ?thesis by blast
    next
      case False
      with Inr Cons.prems obtain rest' where r: "place_finding f cs = Inr rest'"
        and c': "cs' = c # rest'"
        by (auto split: sum.splits)
      from Cons.IH [OF r] show ?thesis
      proof
        assume "\<exists>pre c0 post. cs = pre @ c0 # post \<and> rest' = pre @ (c0 @ [f]) # post \<and>
            matches_cluster f c0 = Inr True"
        then obtain pre c0 post where "cs = pre @ c0 # post" "rest' = pre @ (c0 @ [f]) # post"
          "matches_cluster f c0 = Inr True" by blast
        with c' have "c # cs = (c # pre) @ c0 # post \<and> cs' = (c # pre) @ (c0 @ [f]) # post \<and>
            matches_cluster f c0 = Inr True" by simp
        then show ?thesis by blast
      next
        assume "rest' = cs @ [[f]] \<and> (\<forall>c \<in> set cs. matches_cluster f c = Inr False)"
        with c' Inr False show ?thesis by simp
      qed
    qed
  qed
qed

lemma place_finding_members:
  "place_finding f cs = Inr cs' \<Longrightarrow> set (concat cs') = set (concat cs) \<union> {f}"
  by (drule place_finding_result) auto

lemma place_finding_keeps:
  "place_finding f cs = Inr cs' \<Longrightarrow> c \<in> set cs \<Longrightarrow> \<exists>c' \<in> set cs'. \<exists>post. c' = c @ post"
proof (drule place_finding_result, elim disjE exE conjE)
  fix pre c0 post
  assume c: "c \<in> set cs" and cs: "cs = pre @ c0 # post" and cs': "cs' = pre @ (c0 @ [f]) # post"
  show "\<exists>c' \<in> set cs'. \<exists>post. c' = c @ post"
  proof (cases "c = c0")
    case True
    with cs' have "c @ [f] \<in> set cs'" by simp
    then show ?thesis by blast
  next
    case False
    with c cs cs' have "c \<in> set cs'" by auto
    then show ?thesis by (metis append_Nil2)
  qed
next
  assume "c \<in> set cs" "cs' = cs @ [[f]]"
  then have "c \<in> set cs'" by simp
  then show "\<exists>c' \<in> set cs'. \<exists>post. c' = c @ post" by (metis append_Nil2)
qed

lemma cluster_bucket_keeps:
  "cluster_bucket fs cs = Inr cs' \<Longrightarrow> c \<in> set cs \<Longrightarrow> \<exists>c' \<in> set cs'. \<exists>post. c' = c @ post"
proof (induction fs arbitrary: cs c)
  case Nil
  then show ?case by (metis append_Nil2 cluster_bucket.simps(1) sum.inject(2))
next
  case (Cons f fs)
  from Cons.prems(1) obtain cs1 where p: "place_finding f cs = Inr cs1"
    and r: "cluster_bucket fs cs1 = Inr cs'"
    by (auto split: sum.splits)
  from place_finding_keeps [OF p Cons.prems(2)] obtain c1 post1
    where c1: "c1 \<in> set cs1" "c1 = c @ post1" by blast
  from Cons.IH [OF r c1(1)] obtain c' post where "c' \<in> set cs'" "c' = c1 @ post" by blast
  with c1 have "c' \<in> set cs'" "c' = c @ (post1 @ post)" by simp_all
  then show ?case by blast
qed

lemma cluster_bucket_members:
  "cluster_bucket fs cs = Inr cs' \<Longrightarrow> set (concat cs') = set (concat cs) \<union> set fs"
proof (induction fs arbitrary: cs)
  case Nil
  then show ?case by simp
next
  case (Cons f fs)
  from Cons.prems obtain cs1 where p: "place_finding f cs = Inr cs1"
    and r: "cluster_bucket fs cs1 = Inr cs'"
    by (auto split: sum.splits)
  from Cons.IH [OF r] place_finding_members [OF p] show ?case by auto
qed

lemma cluster_bucket_append:
  "cluster_bucket (xs @ ys) cs =
     (case cluster_bucket xs cs of Inl e \<Rightarrow> Inl e | Inr cs1 \<Rightarrow> cluster_bucket ys cs1)"
  by (induction xs arbitrary: cs) (auto split: sum.splits)

lemma cluster_bucket_joins_match:
  assumes run: "cluster_bucket (xs @ b # ys) cs = Inr cs'"
    and a: "a \<in> set (concat cs) \<union> set xs"
    and m: "locations_match (f_location b) (f_location a) = Inr True"
  shows "\<exists>c' \<in> set cs'. \<exists>pre post e. c' = pre @ b # post \<and> e \<in> set pre \<and>
           locations_match (f_location b) (f_location e) = Inr True"
proof -
  from run obtain cs1 where x: "cluster_bucket xs cs = Inr cs1"
    and r1: "cluster_bucket (b # ys) cs1 = Inr cs'"
    by (auto simp: cluster_bucket_append split: sum.splits)
  from r1 obtain cs2 where p: "place_finding b cs1 = Inr cs2"
    and r2: "cluster_bucket ys cs2 = Inr cs'"
    by (auto split: sum.splits)
  from a cluster_bucket_members [OF x] obtain ca where ca: "ca \<in> set cs1" "a \<in> set ca"
    by auto
  from place_finding_result [OF p] obtain pre c post
    where c: "cs2 = pre @ (c @ [b]) # post" "matches_cluster b c = Inr True"
  proof
    assume "\<exists>pre c post. cs1 = pre @ c # post \<and> cs2 = pre @ (c @ [b]) # post \<and>
        matches_cluster b c = Inr True"
    then show ?thesis using that by blast
  next
    assume "cs2 = cs1 @ [[b]] \<and> (\<forall>c \<in> set cs1. matches_cluster b c = Inr False)"
    with ca have "matches_cluster b ca = Inr False" by blast
    from matches_cluster_False [OF this] ca(2)
    have "locations_match (f_location b) (f_location a) = Inr False" by blast
    with m show ?thesis by simp
  qed
  from matches_cluster_True [OF c(2)] obtain e where e: "e \<in> set c"
    "locations_match (f_location b) (f_location e) = Inr True" by blast
  from c(1) have "c @ [b] \<in> set cs2" by simp
  from cluster_bucket_keeps [OF r2 this] obtain c' post'
    where "c' \<in> set cs'" "c' = (c @ [b]) @ post'" by blast
  then have "c' \<in> set cs'" "c' = c @ b # post'" by simp_all
  with e show ?thesis by blast
qed

lemma group_buckets_clusters:
  "group_buckets buckets = Inr groups \<Longrightarrow> ((tgt, cw), bucket) \<in> set buckets \<Longrightarrow>
   \<exists>clusters. cluster_bucket bucket [] = Inr clusters \<and>
     (\<forall>c \<in> set clusters. \<exists>idx. ((tgt, cw, idx), c) \<in> set groups)"
proof (induction buckets arbitrary: groups)
  case Nil
  then show ?case by simp
next
  case (Cons kb buckets)
  obtain t0 c0 b0 where kb: "kb = ((t0, c0), b0)" by (cases kb) auto
  from Cons.prems(1) obtain clusters0 groups0
    where cl: "cluster_bucket b0 [] = Inr clusters0"
      and g0: "group_buckets buckets = Inr groups0"
      and g: "groups = map (\<lambda>(idx, cluster). ((t0, c0, idx), cluster)) (enumerate 0 clusters0)
                @ groups0"
    unfolding kb by (auto split: sum.splits)
  show ?case
  proof (cases "((tgt, cw), bucket) = kb")
    case True
    then have eq: "t0 = tgt" "c0 = cw" "b0 = bucket" using kb by simp_all
    have "\<exists>idx. ((tgt, cw, idx), c) \<in> set groups" if "c \<in> set clusters0" for c
    proof -
      from that obtain i where i: "i < length clusters0" "clusters0 ! i = c"
        by (auto simp: in_set_conv_nth)
      then have "(i, c) \<in> set (enumerate 0 clusters0)"
        by (auto simp: in_set_enumerate_eq)
      then have "((tgt, cw, i), c) \<in> set groups"
        unfolding g eq by force
      then show ?thesis by blast
    qed
    with cl eq show ?thesis by blast
  next
    case False
    with Cons.prems(2) have "((tgt, cw), bucket) \<in> set buckets" by simp
    from Cons.IH [OF g0 this] obtain clusters
      where "cluster_bucket bucket [] = Inr clusters"
        "\<forall>c \<in> set clusters. \<exists>idx. ((tgt, cw, idx), c) \<in> set groups0" by blast
    then show ?thesis unfolding g by auto
  qed
qed

lemma group_findings_joins_match:
  assumes run: "group_findings (xs @ b # ys) = Inr groups"
    and a: "a \<in> set xs" "f_target a = f_target b" "f_cwe a = f_cwe b"
    and m: "locations_match (f_location b) (f_location a) = Inr True"
  shows "\<exists>idx pre post e. ((f_target b, f_cwe b, idx), pre @ b # post) \<in> set groups \<and>
           e \<in> set pre \<and> locations_match (f_location b) (f_location e) = Inr True"
proof -
  let ?key = "\<lambda>f. (f_target f, f_cwe f)"
  let ?k = "(f_target b, f_cwe b)"
  let ?bucket = "filter (\<lambda>x. ?key x = ?k) (xs @ b # ys)"
  have ne: "?bucket \<noteq> []" by simp
  have "(?k, ?bucket) \<in> set (bucket_findings (xs @ b # ys))"
    unfolding bucket_findings_def using grouped_by_key [of ?k ?bucket ?key "xs @ b # ys"] ne
    by blast
  with run obtain clusters
    where cl: "cluster_bucket ?bucket [] = Inr clusters"
      and gr: "\<forall>c \<in> set clusters. \<exists>idx. ((f_target b, f_cwe b, idx), c) \<in> set groups"
    unfolding group_findings_def using group_buckets_clusters by blast
  have split: "?bucket = filter (\<lambda>x. ?key x = ?k) xs @ b # filter (\<lambda>x. ?key x = ?k) ys"
    by simp
  from a have "a \<in> set (concat []) \<union> set (filter (\<lambda>x. ?key x = ?k) xs)" by simp
  from cluster_bucket_joins_match [OF cl [unfolded split] this m]
  obtain c' pre post e where "c' \<in> set clusters" "c' = pre @ b # post" "e \<in> set pre"
    "locations_match (f_location b) (f_location e) = Inr True" by blast
  with gr show ?thesis by blast
qed

text \<open>
  C2 (as stated, refuted). Two findings without a CWE, from different tools and with
  different rule ids, on the same target and with matching locations, are put in one
  group by \<^verbatim>\<open>group_findings\<close>: their bucket key is the target and the empty CWE.
\<close>

theorem group_findings_nocwe_counterexample:
  "f_cwe ex_njsscan = [] \<and> f_cwe ex_bearer_nocwe = [] \<and>
   f_tool ex_njsscan = ''nodejsscan'' \<and> f_tool ex_bearer_nocwe = ''bearer'' \<and>
   f_raw_id ex_njsscan = ''node_xss'' \<and> f_raw_id ex_bearer_nocwe = ''javascript_lang_logger'' \<and>
   group_findings [ex_njsscan, ex_bearer_nocwe] =
     Inr [((''t'', [], 0), [ex_njsscan, ex_bearer_nocwe])]"
  by code_simp

text \<open>
  C2 (amended). In the clustering of \<^verbatim>\<open>triage-consensus.py\<close> findings without a CWE are
  not keyed apart: they share the bucket of their target and the empty CWE, which is
  clustered like any other. When \<^verbatim>\<open>group_findings\<close> returns, a finding without a CWE
  whose location matches an earlier finding without a CWE of the same target is never in
  a group of its own: its group holds, before it, a finding whose location it matches,
  whatever the tools and rule ids; and two such findings alone in the list form one group.
  The alternate key exists only in \<^verbatim>\<open>deduplicate_findings\<close> of \<^verbatim>\<open>validate.py\<close>: there a
  finding without a CWE is keyed by its model, its file and the text
  \<^verbatim>\<open>_nocwe_<tool>_<rule_id>\<close>, so two such findings are in one deduplication group exactly
  when they agree on the model, the file and the text \<^verbatim>\<open><tool>_<rule_id>\<close>.
\<close>

theorem nocwe_key_only_in_dedup:
  "(group_findings (xs @ b # ys) = Inr groups \<and> a \<in> set xs \<and>
      f_cwe a = [] \<and> f_cwe b = [] \<and> f_target a = f_target b \<and>
      locations_match (f_location b) (f_location a) = Inr True \<longrightarrow>
      (\<exists>idx pre post e. ((f_target b, [], idx), pre @ b # post) \<in> set groups \<and>
          e \<in> set pre \<and> locations_match (f_location b) (f_location e) = Inr True)) \<and>
   (f_cwe a = [] \<and> f_cwe b = [] \<and> f_target a = f_target b \<and>
      locations_match (f_location b) (f_location a) = Inr True \<longrightarrow>
      group_findings [a, b] = Inr [((f_target a, [], 0), [a, b])]) \<and>
   (f \<in> set raw \<and> g \<in> set raw \<and> strip (s_cwe f) = [] \<and> strip (s_cwe g) = [] \<longrightarrow>
      ((\<exists>key grp. (key, grp) \<in> set (dedup_groups raw) \<and> f \<in> set grp \<and> g \<in> set grp) \<longleftrightarrow>
       s_model f = s_model g \<and> s_file f = s_file g \<and>
       s_tool f @ ''_'' @ s_rule_id f = s_tool g @ ''_'' @ s_rule_id g))"
proof (intro conjI impI)
  assume h: "group_findings (xs @ b # ys) = Inr groups \<and> a \<in> set xs \<and>
      f_cwe a = [] \<and> f_cwe b = [] \<and> f_target a = f_target b \<and>
      locations_match (f_location b) (f_location a) = Inr True"
  then have "\<exists>idx pre post e. ((f_target b, f_cwe b, idx), pre @ b # post) \<in> set groups \<and>
          e \<in> set pre \<and> locations_match (f_location b) (f_location e) = Inr True"
    by (intro group_findings_joins_match [of xs b ys groups a]) simp_all
  with h show "\<exists>idx pre post e. ((f_target b, [], idx), pre @ b # post) \<in> set groups \<and>
          e \<in> set pre \<and> locations_match (f_location b) (f_location e) = Inr True"
    by simp
next
  assume "f_cwe a = [] \<and> f_cwe b = [] \<and> f_target a = f_target b \<and>
      locations_match (f_location b) (f_location a) = Inr True"
  then show "group_findings [a, b] = Inr [((f_target a, [], 0), [a, b])]"
    using group_findings_pair [of a b] by simp
next
  assume h: "f \<in> set raw \<and> g \<in> set raw \<and> strip (s_cwe f) = [] \<and> strip (s_cwe g) = []"
  then have "(\<exists>key grp. (key, grp) \<in> set (dedup_groups raw) \<and> f \<in> set grp \<and> g \<in> set grp) \<longleftrightarrow>
         dedup_key f = dedup_key g"
    using same_group_iff by blast
  also have "\<dots> \<longleftrightarrow> s_model f = s_model g \<and> s_file f = s_file g \<and>
       s_tool f @ ''_'' @ s_rule_id f = s_tool g @ ''_'' @ s_rule_id g"
    using h dedup_key_nocwe by blast
  finally show "(\<exists>key grp. (key, grp) \<in> set (dedup_groups raw) \<and> f \<in> set grp \<and> g \<in> set grp) \<longleftrightarrow>
       s_model f = s_model g \<and> s_file f = s_file g \<and>
       s_tool f @ ''_'' @ s_rule_id f = s_tool g @ ''_'' @ s_rule_id g" .
qed

theorem nocwe_key_only_in_dedup_witness:
  "group_findings [ex_zap\<lparr>f_cwe := []\<rparr>, ex_nuclei\<lparr>f_cwe := []\<rparr>, ex_bearer_nocwe] =
     Inr [((''t'', [], 0), [ex_zap\<lparr>f_cwe := []\<rparr>, ex_bearer_nocwe]),
          ((''t'', [], 1), [ex_nuclei\<lparr>f_cwe := []\<rparr>])] \<and>
   locations_match (f_location ex_bearer_nocwe) (f_location (ex_nuclei\<lparr>f_cwe := []\<rparr>)) =
     Inr True \<and>
   (\<exists>idx pre post e. ((f_target ex_bearer_nocwe, [], idx), pre @ ex_bearer_nocwe # post)
        \<in> set [((''t'', []::string, 0::nat), [ex_zap\<lparr>f_cwe := []\<rparr>, ex_bearer_nocwe]),
                ((''t'', [], 1), [ex_nuclei\<lparr>f_cwe := []\<rparr>])] \<and>
      e \<in> set pre \<and>
      locations_match (f_location ex_bearer_nocwe) (f_location e) = Inr True) \<and>
   locations_match (f_location ex_bearer_nocwe) (f_location ex_njsscan) = Inr True \<and>
   group_findings [ex_njsscan, ex_bearer_nocwe] =
     Inr [((f_target ex_njsscan, [], 0), [ex_njsscan, ex_bearer_nocwe])] \<and>
   strip (s_cwe ex_scan_bandit) = [] \<and> strip (s_cwe ex_scan_semgrep) = [] \<and>
   \<not> (\<exists>key grp. (key, grp) \<in> set (dedup_groups [ex_scan_bandit, ex_scan_semgrep]) \<and>
         ex_scan_bandit \<in> set grp \<and> ex_scan_semgrep \<in> set grp) \<and>
   (\<exists>key grp. (key, grp) \<in> set (dedup_groups [ex_scan_bandit, ex_scan_bandit\<lparr>s_line := 30\<rparr>]) \<and>
         ex_scan_bandit \<in> set grp \<and> ex_scan_bandit\<lparr>s_line := 30\<rparr> \<in> set grp)"
proof -
  have e3: "group_findings ([ex_zap\<lparr>f_cwe := []\<rparr>, ex_nuclei\<lparr>f_cwe := []\<rparr>] @ ex_bearer_nocwe # []) =
     Inr [((''t'', [], 0), [ex_zap\<lparr>f_cwe := []\<rparr>, ex_bearer_nocwe]),
          ((''t'', [], 1), [ex_nuclei\<lparr>f_cwe := []\<rparr>])]"
    by code_simp
  have l3: "locations_match (f_location ex_bearer_nocwe) (f_location (ex_nuclei\<lparr>f_cwe := []\<rparr>)) =
     Inr True"
    and c3: "f_cwe (ex_nuclei\<lparr>f_cwe := []\<rparr>) = []"
            "f_target (ex_nuclei\<lparr>f_cwe := []\<rparr>) = f_target ex_bearer_nocwe"
    by code_simp+
  have l: "locations_match (f_location ex_bearer_nocwe) (f_location ex_njsscan) = Inr True"
    and c: "f_cwe ex_njsscan = []" "f_cwe ex_bearer_nocwe = []"
           "f_target ex_njsscan = f_target ex_bearer_nocwe"
    by code_simp+
  have s: "strip (s_cwe ex_scan_bandit) = []" "strip (s_cwe ex_scan_semgrep) = []"
          "strip (s_cwe (ex_scan_bandit\<lparr>s_line := 30\<rparr>)) = []"
    by code_simp+
  have d: "s_tool ex_scan_bandit @ ''_'' @ s_rule_id ex_scan_bandit \<noteq>
           s_tool ex_scan_semgrep @ ''_'' @ s_rule_id ex_scan_semgrep"
    by code_simp
  have q: "s_model ex_scan_bandit = s_model (ex_scan_bandit\<lparr>s_line := 30\<rparr>) \<and>
          s_file ex_scan_bandit = s_file (ex_scan_bandit\<lparr>s_line := 30\<rparr>) \<and>
          s_tool ex_scan_bandit @ ''_'' @ s_rule_id ex_scan_bandit =
           s_tool (ex_scan_bandit\<lparr>s_line := 30\<rparr>) @ ''_'' @ s_rule_id (ex_scan_bandit\<lparr>s_line := 30\<rparr>)"
    by simp
  have h0: "group_findings ([ex_zap\<lparr>f_cwe := []\<rparr>, ex_nuclei\<lparr>f_cwe := []\<rparr>] @ ex_bearer_nocwe # []) =
       Inr [((''t'', [], 0), [ex_zap\<lparr>f_cwe := []\<rparr>, ex_bearer_nocwe]),
            ((''t'', [], 1), [ex_nuclei\<lparr>f_cwe := []\<rparr>])] \<and>
      ex_nuclei\<lparr>f_cwe := []\<rparr> \<in> set [ex_zap\<lparr>f_cwe := []\<rparr>, ex_nuclei\<lparr>f_cwe := []\<rparr>] \<and>
      f_cwe (ex_nuclei\<lparr>f_cwe := []\<rparr>) = [] \<and> f_cwe ex_bearer_nocwe = [] \<and>
      f_target (ex_nuclei\<lparr>f_cwe := []\<rparr>) = f_target ex_bearer_nocwe \<and>
      locations_match (f_location ex_bearer_nocwe) (f_location (ex_nuclei\<lparr>f_cwe := []\<rparr>)) =
        Inr True"
    using e3 l3 c3 c(2) by simp
  have h1: "f_cwe ex_njsscan = [] \<and> f_cwe ex_bearer_nocwe = [] \<and>
      f_target ex_njsscan = f_target ex_bearer_nocwe \<and>
      locations_match (f_location ex_bearer_nocwe) (f_location ex_njsscan) = Inr True"
    using l c by (intro conjI)
  have h2: "ex_scan_bandit \<in> set [ex_scan_bandit, ex_scan_semgrep] \<and>
      ex_scan_semgrep \<in> set [ex_scan_bandit, ex_scan_semgrep] \<and>
      strip (s_cwe ex_scan_bandit) = [] \<and> strip (s_cwe ex_scan_semgrep) = []"
    using s by simp
  have h3: "ex_scan_bandit \<in> set [ex_scan_bandit, ex_scan_bandit\<lparr>s_line := 30\<rparr>] \<and>
      ex_scan_bandit\<lparr>s_line := 30\<rparr> \<in> set [ex_scan_bandit, ex_scan_bandit\<lparr>s_line := 30\<rparr>] \<and>
      strip (s_cwe ex_scan_bandit) = [] \<and> strip (s_cwe (ex_scan_bandit\<lparr>s_line := 30\<rparr>)) = []"
    using s by simp
  note j = nocwe_key_only_in_dedup
    [of "[ex_zap\<lparr>f_cwe := []\<rparr>, ex_nuclei\<lparr>f_cwe := []\<rparr>]" ex_bearer_nocwe "[]"
        "[((''t'', [], 0), [ex_zap\<lparr>f_cwe := []\<rparr>, ex_bearer_nocwe]),
          ((''t'', [], 1), [ex_nuclei\<lparr>f_cwe := []\<rparr>])]"
        "ex_nuclei\<lparr>f_cwe := []\<rparr>" ex_scan_bandit "[ex_scan_bandit, ex_scan_semgrep]"
        ex_scan_semgrep, THEN conjunct1, THEN mp, OF h0]
  note g = nocwe_key_only_in_dedup
    [of "[ex_njsscan]" ex_bearer_nocwe "[]" "[]" ex_njsscan ex_scan_bandit
        "[ex_scan_bandit, ex_scan_semgrep]" ex_scan_semgrep,
     THEN conjunct2, THEN conjunct1, THEN mp, OF h1]
  note n = nocwe_key_only_in_dedup
    [of "[ex_njsscan]" ex_bearer_nocwe "[]" "[]" ex_njsscan ex_scan_bandit
        "[ex_scan_bandit, ex_scan_semgrep]" ex_scan_semgrep,
     THEN conjunct2, THEN conjunct2, THEN mp, OF h2]
  note y = nocwe_key_only_in_dedup
    [of "[ex_njsscan]" ex_bearer_nocwe "[]" "[]" ex_njsscan ex_scan_bandit
        "[ex_scan_bandit, ex_scan_bandit\<lparr>s_line := 30\<rparr>]" "ex_scan_bandit\<lparr>s_line := 30\<rparr>",
     THEN conjunct2, THEN conjunct2, THEN mp, OF h3]
  from n d have n': "\<not> (\<exists>key grp. (key, grp) \<in> set (dedup_groups [ex_scan_bandit, ex_scan_semgrep]) \<and>
         ex_scan_bandit \<in> set grp \<and> ex_scan_semgrep \<in> set grp)"
    by (simp only: simp_thms)
  from y q have y': "\<exists>key grp. (key, grp) \<in> set (dedup_groups [ex_scan_bandit, ex_scan_bandit\<lparr>s_line := 30\<rparr>]) \<and>
         ex_scan_bandit \<in> set grp \<and> ex_scan_bandit\<lparr>s_line := 30\<rparr> \<in> set grp"
    by (rule iffD2)
  from e3 have e3': "group_findings [ex_zap\<lparr>f_cwe := []\<rparr>, ex_nuclei\<lparr>f_cwe := []\<rparr>, ex_bearer_nocwe] =
     Inr [((''t'', [], 0), [ex_zap\<lparr>f_cwe := []\<rparr>, ex_bearer_nocwe]),
          ((''t'', [], 1), [ex_nuclei\<lparr>f_cwe := []\<rparr>])]"
    by simp
  from e3' l3 j l g s(1) s(2) n' y' show ?thesis by (intro conjI)
qed

end
